theory Spec2Isabelle
  imports Complex_Main
begin

section \<open>Invoice normalisation: currency detection, conversion, formatting, aggregation\<close>

text \<open>
  A shallow embedding of \<^verbatim>\<open>backend/app/utils/currency.py\<close> and of the flagging step of
  \<^verbatim>\<open>backend/app/services/invoice_service.py\<close>.

  \<^item> A Python \<^verbatim>\<open>str\<close> is a list of Unicode code points (\<open>nat list\<close>); \<open>u ''USD''\<close> is
    the code-point list of an ASCII literal, and the non-ASCII currency signs are written
    as their code points.
  \<^item> A Python \<^verbatim>\<open>float\<close> is the exact rational value of an IEEE 754 double. Every
    arithmetic operation rounds its exact result to the nearest double, ties to even, with
    53 significant bits and gradual underflow; \<^verbatim>\<open>round(x, 2)\<close> rounds the exact value of
    \<open>x\<close> to the nearest multiple of 1/100, ties to even, and returns the double nearest to
    that decimal. Infinities, NaN and results beyond the largest double are outside the
    model.
  \<^item> The module-level table \<^verbatim>\<open>EXCHANGE_RATES\<close> is mutable in the source
    (\<^verbatim>\<open>update_exchange_rates\<close>), so every function that reads it takes the table as its
    first argument; \<open>EXCHANGE_RATES\<close> is the baseline table of the source text.
  \<^item> An exception is a value \<open>Inl e\<close> of the result.
\<close>

subsection \<open>Strings and numbers\<close>

type_synonym ustring = "nat list"

definition u :: "string \<Rightarrow> ustring" where
  "u s = map of_char s"

datatype py_error = ZeroDivisionError | ValueError | OtherError

definition round_half_even :: "rat \<Rightarrow> int" where
  "round_half_even x =
     (let f = \<lfloor>x\<rfloor>; d = x - of_int f
      in if d < 1 / 2 then f
         else if 1 / 2 < d then f + 1
         else if even f then f else f + 1)"

definition round_decimal :: "rat \<Rightarrow> nat \<Rightarrow> rat" where
  \<comment> \<open>the exact rounding of \<open>x\<close> to \<open>ndigits\<close> decimals, ties to even\<close>
  "round_decimal x ndigits = of_int (round_half_even (x * 10 ^ ndigits)) / 10 ^ ndigits"

text \<open>
  A double is \<open>m * 2 ^ e\<close> with an integer \<open>m\<close> of at most 53 bits and \<open>e\<close> between
  \<open>E_MIN\<close> and \<open>E_MAX\<close>. \<open>ulp_exponent x\<close> is the exponent of the doubles next to \<open>x\<close>: the
  least \<open>e\<close> with \<open>\<bar>x\<bar> < 2 ^ (e + 53)\<close>. \<open>double_of x\<close> is the double nearest to \<open>x\<close>, which
  is also how Python reads a decimal literal. The operations read an argument that is
  not a double as the nearest double.
\<close>

definition E_MIN :: int where
  "E_MIN = - 1074"

definition E_MAX :: int where
  "E_MAX = 971"

definition ulp_exponent :: "rat \<Rightarrow> int" where
  "ulp_exponent x =
     (case find (\<lambda>e. \<bar>x\<bar> < 2 powi (e + 53)) [E_MIN..E_MAX] of
        Some e \<Rightarrow> e
      | None \<Rightarrow> E_MAX)"

definition double_of :: "rat \<Rightarrow> rat" where
  "double_of x =
     (let e = ulp_exponent x in of_int (round_half_even (x / 2 powi e)) * 2 powi e)"

definition fadd :: "rat \<Rightarrow> rat \<Rightarrow> rat" where
  \<comment> \<open>\<^verbatim>\<open>a + b\<close> on floats\<close>
  "fadd a b = double_of (double_of a + double_of b)"

definition fmul :: "rat \<Rightarrow> rat \<Rightarrow> rat" where
  \<comment> \<open>\<^verbatim>\<open>a * b\<close> on floats\<close>
  "fmul a b = double_of (double_of a * double_of b)"

definition fdiv :: "rat \<Rightarrow> rat \<Rightarrow> rat" where
  \<comment> \<open>\<^verbatim>\<open>a / b\<close> on floats, for a divisor other than zero\<close>
  "fdiv a b = double_of (double_of a / double_of b)"

definition py_round :: "rat \<Rightarrow> nat \<Rightarrow> rat" where
  \<comment> \<open>\<^verbatim>\<open>round(x, ndigits)\<close> on a float\<close>
  "py_round x ndigits = double_of (round_decimal (double_of x) ndigits)"

subsection \<open>The catalogue: exchange rates\<close>

type_synonym rate_table = "ustring \<rightharpoonup> rat"

definition EXCHANGE_RATES :: rate_table where
  "EXCHANGE_RATES = map_of
     [(u ''USD'', double_of 1),
      (u ''EUR'', double_of (92 / 100)),
      (u ''GBP'', double_of (79 / 100)),
      (u ''JPY'', double_of (14950 / 100)),
      (u ''CAD'', double_of (136 / 100)),
      (u ''AUD'', double_of (153 / 100)),
      (u ''CHF'', double_of (89 / 100)),
      (u ''CNY'', double_of (724 / 100)),
      (u ''INR'', double_of (8312 / 100)),
      (u ''MXN'', double_of (1705 / 100)),
      (u ''BRL'', double_of (497 / 100)),
      (u ''RUB'', double_of (9850 / 100)),
      (u ''ZAR'', double_of (1850 / 100)),
      (u ''NOK'', double_of (1048 / 100)),
      (u ''SEK'', double_of (1035 / 100)),
      (u ''NZD'', double_of (162 / 100))]"

definition update_exchange_rates :: "rate_table \<Rightarrow> (ustring \<times> rat) list \<Rightarrow> rate_table" where
  \<comment> \<open>\<^verbatim>\<open>EXCHANGE_RATES.update(new_rates)\<close>: later entries of \<open>new_rates\<close> win\<close>
  "update_exchange_rates rates new_rates = rates ++ map_of (rev new_rates)"

subsection \<open>The catalogue: symbols, names and detection patterns\<close>

text \<open>
  A dict literal keeps the position of the first occurrence of a key and the value of its
  last occurrence; \<open>py_dict\<close> builds the dict from the entries as they are written.
\<close>

definition dict_set :: "('k \<times> 'v) list \<Rightarrow> 'k \<Rightarrow> 'v \<Rightarrow> ('k \<times> 'v) list" where
  "dict_set d k v =
     (if k \<in> fst ` set d then map (\<lambda>(k', v'). if k' = k then (k', v) else (k', v')) d
      else d @ [(k, v)])"

definition py_dict :: "('k \<times> 'v) list \<Rightarrow> ('k \<times> 'v) list" where
  "py_dict entries = foldl (\<lambda>d (k, v). dict_set d k v) [] entries"

definition CURRENCY_SYMBOLS :: "(ustring \<times> ustring) list" where
  "CURRENCY_SYMBOLS = py_dict
     [(u ''$'', u ''USD''),
      ([0x20AC], u ''EUR''),
      ([0xA3], u ''GBP''),
      ([0xA5], u ''JPY''),
      ([0x20B9], u ''INR''),
      (u ''C$'', u ''CAD''),
      (u ''A$'', u ''AUD''),
      (u ''NZ$'', u ''NZD''),
      (u ''kr'', u ''SEK''),
      (u ''CHF'', u ''CHF''),
      (u ''R$'', u ''BRL''),
      ([0x20BD], u ''RUB''),
      (u ''R'', u ''ZAR''),
      (u ''kr'', u ''NOK'')]"

definition CURRENCY_NAMES :: "(ustring \<times> ustring) list" where
  "CURRENCY_NAMES = py_dict
     [(u ''dollar'', u ''USD''),
      (u ''usd'', u ''USD''),
      (u ''us dollar'', u ''USD''),
      (u ''euro'', u ''EUR''),
      (u ''eur'', u ''EUR''),
      (u ''pound'', u ''GBP''),
      (u ''gbp'', u ''GBP''),
      (u ''british pound'', u ''GBP''),
      (u ''yen'', u ''JPY''),
      (u ''jpy'', u ''JPY''),
      (u ''japanese yen'', u ''JPY''),
      (u ''canadian dollar'', u ''CAD''),
      (u ''cad'', u ''CAD''),
      (u ''australian dollar'', u ''AUD''),
      (u ''aud'', u ''AUD''),
      (u ''swiss franc'', u ''CHF''),
      (u ''chf'', u ''CHF''),
      (u ''yuan'', u ''CNY''),
      (u ''cny'', u ''CNY''),
      (u ''rupee'', u ''INR''),
      (u ''inr'', u ''INR'')]"

text \<open>
  The patterns of the source are alternations of literals, one of them followed by the
  negative lookahead \<^verbatim>\<open>(?!\s)\<close>. A branch is a sequence of items, a pattern a list of
  branches.
\<close>

datatype re_item = Chr nat | NotSpaceAhead

type_synonym regex = "re_item list list"

definition lit :: "string \<Rightarrow> re_item list" where
  "lit s = map (\<lambda>c. Chr (of_char c)) s"

definition CURRENCY_PATTERNS :: "(regex \<times> ustring) list" where
  "CURRENCY_PATTERNS =
     [([lit ''USD'', lit ''$'' @ [NotSpaceAhead], lit ''US$''], u ''USD''),
      ([lit ''EUR'', [Chr 0x20AC], lit ''Euro''], u ''EUR''),
      ([lit ''GBP'', [Chr 0xA3], lit ''British Pound''], u ''GBP''),
      ([lit ''JPY'', [Chr 0xA5], lit ''Japanese Yen''], u ''JPY''),
      ([lit ''CAD'', lit ''C$'', lit ''Canadian''], u ''CAD''),
      ([lit ''AUD'', lit ''A$'', lit ''Australian''], u ''AUD''),
      ([lit ''CHF'', lit ''Swiss Franc''], u ''CHF''),
      ([lit ''CNY'', lit ''Yuan'', lit ''RMB''], u ''CNY''),
      ([lit ''INR'', [Chr 0x20B9], lit ''Rupee''], u ''INR''),
      ([lit ''MXN'', lit ''Mexican Peso''], u ''MXN''),
      ([lit ''BRL'', lit ''R$'', lit ''Brazilian''], u ''BRL''),
      ([lit ''RUB'', [Chr 0x20BD], lit ''Russian''], u ''RUB''),
      ([lit ''ZAR'', lit ''South African''], u ''ZAR''),
      ([lit ''NOK'', lit ''Norwegian Krone''], u ''NOK''),
      ([lit ''SEK'', lit ''Swedish Krona''], u ''SEK''),
      ([lit ''NZD'', lit ''New Zealand''], u ''NZD'')]"

subsection \<open>Searching text\<close>

text \<open>
  \<open>unicode_tolower\<close> is the lower-casing of one code point that the regular-expression
  engine applies under \<^verbatim>\<open>re.IGNORECASE\<close>, given on the code points whose lower case is an
  ASCII letter: the capital letters A to Z, LATIN CAPITAL LETTER I WITH DOT ABOVE (U+0130)
  and KELVIN SIGN (U+212A). The patterns of the catalogue hold ASCII letters and uncased
  signs only, so the lower case of any other code point is never compared with success
  and is left as the code point itself. The engine also lets \<open>i\<close> match
  LATIN SMALL LETTER DOTLESS I (U+0131) and \<open>s\<close> match LATIN SMALL LETTER LONG S (U+017F).
\<close>

definition unicode_tolower :: "nat \<Rightarrow> nat" where
  "unicode_tolower c =
     (if 65 \<le> c \<and> c \<le> 90 then c + 32
      else if c = 0x130 then 0x69
      else if c = 0x212A then 0x6B
      else c)"

definition re_ieq :: "nat \<Rightarrow> nat \<Rightarrow> bool" where
  "re_ieq p c =
     (let lp = unicode_tolower p; lc = unicode_tolower c
      in lp = lc \<or> (lp = 0x69 \<and> lc = 0x131) \<or> (lp = 0x73 \<and> lc = 0x17F))"

definition is_space :: "nat \<Rightarrow> bool" where
  \<comment> \<open>\<^verbatim>\<open>\s\<close> on a \<^verbatim>\<open>str\<close>, which is also what \<^verbatim>\<open>str.strip()\<close> removes\<close>
  "is_space c =
     ((0x09 \<le> c \<and> c \<le> 0x0D) \<or> (0x1C \<le> c \<and> c \<le> 0x20) \<or> c = 0x85 \<or> c = 0xA0
      \<or> c = 0x1680 \<or> (0x2000 \<le> c \<and> c \<le> 0x200A) \<or> c = 0x2028 \<or> c = 0x2029
      \<or> c = 0x202F \<or> c = 0x205F \<or> c = 0x3000)"

fun match_here :: "re_item list \<Rightarrow> ustring \<Rightarrow> bool" where
  "match_here [] t = True"
| "match_here (Chr p # rest) [] = False"
| "match_here (Chr p # rest) (c # cs) = (re_ieq p c \<and> match_here rest cs)"
| "match_here (NotSpaceAhead # rest) [] = match_here rest []"
| "match_here (NotSpaceAhead # rest) (c # cs) = (\<not> is_space c \<and> match_here rest (c # cs))"

fun tails :: "'a list \<Rightarrow> 'a list list" where
  "tails [] = [[]]"
| "tails (x # xs) = (x # xs) # tails xs"

definition re_search :: "regex \<Rightarrow> ustring \<Rightarrow> bool" where
  \<comment> \<open>\<^verbatim>\<open>re.search(pattern, text, re.IGNORECASE)\<close> is not \<^verbatim>\<open>None\<close>\<close>
  "re_search pattern text = list_ex (\<lambda>t. list_ex (\<lambda>branch. match_here branch t) pattern) (tails text)"

definition startswith :: "'a list \<Rightarrow> 'a list \<Rightarrow> bool" where
  "startswith t needle = (take (length needle) t = needle)"

definition contains :: "'a list \<Rightarrow> 'a list \<Rightarrow> bool" where
  \<comment> \<open>\<^verbatim>\<open>needle in text\<close>\<close>
  "contains needle text = list_ex (\<lambda>t. startswith t needle) (tails text)"

text \<open>
  \<open>py_lower\<close> is \<^verbatim>\<open>str.lower()\<close> on the code points whose lower-case form holds an ASCII
  character: A to Z, U+0130 (which becomes \<open>i\<close> followed by COMBINING DOT ABOVE) and
  U+212A. Any other code point is kept; Python turns a cased one into a non-ASCII
  lower-case letter, which makes no difference to a search for the ASCII names of the
  catalogue.
\<close>

definition lower_cp :: "nat \<Rightarrow> ustring" where
  "lower_cp c =
     (if 65 \<le> c \<and> c \<le> 90 then [c + 32]
      else if c = 0x130 then [0x69, 0x307]
      else if c = 0x212A then [0x6B]
      else [c])"

definition py_lower :: "ustring \<Rightarrow> ustring" where
  "py_lower text = concat (map lower_cp text)"

subsection \<open>Detection\<close>

definition detect_currency :: "ustring \<Rightarrow> ustring \<times> rat" where
  "detect_currency text =
     (if text = [] then (u ''USD'', 5 / 10)
      else
        let text_lower = py_lower text
        in case find (\<lambda>(pattern, currency_code). re_search pattern text) CURRENCY_PATTERNS of
             Some (pattern, currency_code) \<Rightarrow> (currency_code, 9 / 10)
           | None \<Rightarrow>
               (case find (\<lambda>(name, currency_code). contains name text_lower) CURRENCY_NAMES of
                  Some (name, currency_code) \<Rightarrow> (currency_code, 85 / 100)
                | None \<Rightarrow>
                    (case find (\<lambda>(symbol, currency_code). contains symbol text) CURRENCY_SYMBOLS of
                       Some (symbol, currency_code) \<Rightarrow> (currency_code, 88 / 100)
                     | None \<Rightarrow> (u ''USD'', 5 / 10))))"

subsection \<open>Conversion\<close>

definition py_div :: "rat \<Rightarrow> rat \<Rightarrow> py_error + rat" where
  "py_div a b = (if double_of b = 0 then Inl ZeroDivisionError else Inr (fdiv a b))"

definition convert_currency :: "rate_table \<Rightarrow> rat \<Rightarrow> ustring \<Rightarrow> ustring \<Rightarrow> py_error + rat" where
  "convert_currency rates amount from_currency to_currency =
     (if from_currency = to_currency then Inr amount
      else
        let from_rate = rates from_currency; to_rate = rates to_currency
        in case (from_rate, to_rate) of
             (Some fr, Some tr) \<Rightarrow>
               (case (if from_currency \<noteq> u ''USD'' then py_div amount fr else Inr amount) of
                  Inl e \<Rightarrow> Inl e
                | Inr amount_in_usd \<Rightarrow> Inr (py_round (fmul amount_in_usd tr) 2))
           | _ \<Rightarrow> Inr amount)"

subsection \<open>Formatting\<close>

definition symbols :: "(ustring \<times> ustring) list" where
  \<comment> \<open>the local table of \<^verbatim>\<open>get_currency_symbol\<close>\<close>
  "symbols = py_dict
     [(u ''USD'', u ''$''),
      (u ''EUR'', [0x20AC]),
      (u ''GBP'', [0xA3]),
      (u ''JPY'', [0xA5]),
      (u ''CAD'', u ''C$''),
      (u ''AUD'', u ''A$''),
      (u ''CHF'', u ''CHF''),
      (u ''CNY'', [0xA5]),
      (u ''INR'', [0x20B9]),
      (u ''MXN'', u ''$''),
      (u ''BRL'', u ''R$''),
      (u ''RUB'', [0x20BD]),
      (u ''ZAR'', u ''R''),
      (u ''NOK'', u ''kr''),
      (u ''SEK'', u ''kr''),
      (u ''NZD'', u ''NZ$'')]"

definition get_currency_symbol :: "ustring \<Rightarrow> ustring" where
  "get_currency_symbol currency_code =
     (case map_of symbols currency_code of Some s \<Rightarrow> s | None \<Rightarrow> currency_code)"

fun digits :: "nat \<Rightarrow> ustring" where
  "digits n = (if n < 10 then [48 + n] else digits (n div 10) @ [48 + n mod 10])"

fun group3 :: "ustring \<Rightarrow> ustring" where
  "group3 (a # b # c # d # rest) = a # b # c # 44 # group3 (d # rest)"
| "group3 ds = ds"

definition with_commas :: "ustring \<Rightarrow> ustring" where
  \<comment> \<open>a comma before every group of three digits, counted from the right\<close>
  "with_commas ds = rev (group3 (rev ds))"

definition format_fixed2 :: "bool \<Rightarrow> rat \<Rightarrow> ustring" where
  \<comment> \<open>\<^verbatim>\<open>f"{x:,.2f}"\<close> when \<open>grouping\<close>, \<^verbatim>\<open>f"{x:.2f}"\<close> otherwise\<close>
  "format_fixed2 grouping x =
     (let n = nat (round_half_even (\<bar>x\<bar> * 100));
          int_digits = digits (n div 100);
          frac = n mod 100
      in (if x < 0 then [45] else [])
         @ (if grouping then with_commas int_digits else int_digits)
         @ [46, 48 + frac div 10, 48 + frac mod 10])"

definition format_currency :: "rat \<Rightarrow> ustring \<Rightarrow> bool \<Rightarrow> ustring" where
  "format_currency amount currency_code include_symbol =
     (let formatted = (if 1000 \<le> amount then format_fixed2 True amount
                       else format_fixed2 False amount)
      in if include_symbol then get_currency_symbol currency_code @ formatted
         else formatted @ [32] @ currency_code)"

subsection \<open>Invoices\<close>

text \<open>
  An invoice is a dict in the source. Its keys are those of the extraction contract and
  those the pipeline adds; a key that may be absent is an optional field, and the keys the
  model does not name are the extension part of the record.
\<close>

record line_item =
  description :: "ustring option"
  cost :: "rat option"
  cost_formatted :: "ustring option"
  cost_usd :: "rat option"

record 'i invoice =
  vendor_name :: "ustring option"
  invoice_number :: "ustring option"
  invoice_date :: "ustring option"
  total_amount :: "rat option"
  line_items :: "'i line_item_scheme list option"
  currency :: "ustring option"
  currency_confidence :: "rat option"
  currency_symbol :: "ustring option"
  total_amount_formatted :: "ustring option"
  total_amount_usd :: "rat option"
  flagged :: "bool option"

definition get_default :: "'a option \<Rightarrow> 'a \<Rightarrow> 'a" where
  \<comment> \<open>\<^verbatim>\<open>d.get(key, default)\<close>\<close>
  "get_default v d = (case v of Some x \<Rightarrow> x | None \<Rightarrow> d)"

fun join_space :: "ustring list \<Rightarrow> ustring" where
  \<comment> \<open>\<^verbatim>\<open>' '.join(parts)\<close>\<close>
  "join_space [] = []"
| "join_space [x] = x"
| "join_space (x # y # zs) = x @ [32] @ join_space (y # zs)"

subsection \<open>Normalisation\<close>

definition normalize_item ::
  "rate_table \<Rightarrow> ustring \<Rightarrow> 'i line_item_scheme \<Rightarrow> py_error + 'i line_item_scheme" where
  \<comment> \<open>the body of the loop over \<^verbatim>\<open>invoice_data['line_items']\<close>\<close>
  "normalize_item rates detected_currency item =
     (case cost item of
        None \<Rightarrow> Inr item
      | Some c \<Rightarrow>
          (case convert_currency rates c detected_currency (u ''USD'') of
             Inl e \<Rightarrow> Inl e
           | Inr usd \<Rightarrow>
               Inr (item\<lparr>cost_formatted := Some (format_currency c detected_currency True),
                         cost_usd := Some usd\<rparr>)))"

fun normalize_items ::
  "rate_table \<Rightarrow> ustring \<Rightarrow> 'i line_item_scheme list \<Rightarrow> py_error + 'i line_item_scheme list" where
  "normalize_items rates detected_currency [] = Inr []"
| "normalize_items rates detected_currency (item # items) =
     (case normalize_item rates detected_currency item of
        Inl e \<Rightarrow> Inl e
      | Inr item' \<Rightarrow>
          (case normalize_items rates detected_currency items of
             Inl e \<Rightarrow> Inl e
           | Inr items' \<Rightarrow> Inr (item' # items')))"

definition normalize_currency_data ::
  "rate_table \<Rightarrow> ('i, 'm) invoice_scheme \<Rightarrow> py_error + ('i, 'm) invoice_scheme" where
  "normalize_currency_data rates invoice_data =
     (let invoice_text = join_space
            [get_default (vendor_name invoice_data) [],
             get_default (invoice_number invoice_data) [],
             get_default (invoice_date invoice_data) []];
          (detected_currency, confidence) = detect_currency invoice_text;
          inv1 = invoice_data
            \<lparr>currency := Some detected_currency,
             currency_confidence := Some confidence,
             currency_symbol := Some (get_currency_symbol detected_currency)\<rparr>
      in case (case total_amount inv1 of
                 None \<Rightarrow> Inr inv1
               | Some amount \<Rightarrow>
                   (case convert_currency rates amount detected_currency (u ''USD'') of
                      Inl e \<Rightarrow> Inl e
                    | Inr usd \<Rightarrow>
                        Inr (inv1
                          \<lparr>total_amount_formatted :=
                             Some (format_currency amount detected_currency True),
                           total_amount_usd := Some usd\<rparr>))) of
           Inl e \<Rightarrow> Inl e
         | Inr inv2 \<Rightarrow>
             (case line_items inv2 of
                None \<Rightarrow> Inr inv2
              | Some items \<Rightarrow>
                  (case normalize_items rates detected_currency items of
                     Inl e \<Rightarrow> Inl e
                   | Inr items' \<Rightarrow> Inr (inv2\<lparr>line_items := Some items'\<rparr>))))"

subsection \<open>Flagging\<close>

definition FLAGGED_AMOUNT_THRESHOLD :: rat where
  "FLAGGED_AMOUNT_THRESHOLD = 5000"

definition py_strip :: "ustring \<Rightarrow> ustring" where
  "py_strip text = rev (dropWhile is_space (rev (dropWhile is_space text)))"

text \<open>
  \<open>process_single_invoice\<close> takes its three collaborators (the PDF check, the text
  extraction and the language-model extraction) as functions; each of the last two may
  raise.
\<close>

definition process_single_invoice ::
  "rate_table \<Rightarrow> (ustring \<Rightarrow> bool) \<Rightarrow> (ustring \<Rightarrow> py_error + ustring)
   \<Rightarrow> (ustring \<Rightarrow> py_error + ('i, 'm) invoice_scheme) \<Rightarrow> ustring
   \<Rightarrow> py_error + ('i, 'm) invoice_scheme" where
  "process_single_invoice rates validate_pdf extract_text_from_pdf extract_invoice_data pdf_path =
     (if \<not> validate_pdf pdf_path then Inl ValueError
      else case extract_text_from_pdf pdf_path of
        Inl e \<Rightarrow> Inl e
      | Inr pdf_text \<Rightarrow>
          if py_strip pdf_text = [] then Inl ValueError
          else case extract_invoice_data pdf_text of
            Inl e \<Rightarrow> Inl e
          | Inr extracted \<Rightarrow>
              (case normalize_currency_data rates extracted of
                 Inl e \<Rightarrow> Inl e
               | Inr invoice_data \<Rightarrow>
                   let comparison_amount =
                         get_default (total_amount_usd invoice_data)
                           (get_default (total_amount invoice_data) 0)
                   in Inr (invoice_data
                        \<lparr>flagged := Some (FLAGGED_AMOUNT_THRESHOLD < comparison_amount)\<rparr>)))"

subsection \<open>Aggregation\<close>

record currency_stats =
  count :: nat
  total :: rat
  average :: rat

record summary =
  total_by_currency :: "(ustring \<times> rat) list"
  total_in_usd :: rat
  currency_breakdown :: "(ustring \<times> currency_stats) list"
  currencies_detected :: "ustring list option"

definition dict_update :: "('k \<times> 'v) list \<Rightarrow> 'k \<Rightarrow> ('v \<Rightarrow> 'v) \<Rightarrow> ('k \<times> 'v) list" where
  \<comment> \<open>an augmented assignment \<^verbatim>\<open>d[k] op= ...\<close> to a key that is present\<close>
  "dict_update d k f = map (\<lambda>(k', v). if k' = k then (k', f v) else (k', v)) d"

definition accumulate ::
  "(ustring \<times> rat) list \<times> (ustring \<times> currency_stats) list \<Rightarrow> ('i, 'm) invoice_scheme
   \<Rightarrow> (ustring \<times> rat) list \<times> (ustring \<times> currency_stats) list" where
  \<comment> \<open>the body of the first loop of \<^verbatim>\<open>get_multi_currency_summary\<close>\<close>
  "accumulate acc invoice =
     (let (totals, breakdown) = acc;
          code = get_default (currency invoice) (u ''USD'');
          amount = get_default (total_amount invoice) 0;
          (totals1, breakdown1) =
            (if code \<notin> fst ` set totals
             then (dict_set totals code 0,
                   dict_set breakdown code \<lparr>count = 0, total = 0, average = 0\<rparr>)
             else (totals, breakdown));
          totals2 = dict_update totals1 code (\<lambda>t. fadd t amount);
          breakdown2 = dict_update breakdown1 code (\<lambda>s. s\<lparr>count := count s + 1\<rparr>);
          breakdown3 = dict_update breakdown2 code (\<lambda>s. s\<lparr>total := fadd (total s) amount\<rparr>)
      in (totals2, breakdown3))"

fun sum_in_usd :: "rate_table \<Rightarrow> (ustring \<times> rat) list \<Rightarrow> rat \<Rightarrow> py_error + rat" where
  \<comment> \<open>the second loop: one conversion for each currency, added to the running sum\<close>
  "sum_in_usd rates [] running = Inr running"
| "sum_in_usd rates ((code, t) # rest) running =
     (case convert_currency rates t code (u ''USD'') of
        Inl e \<Rightarrow> Inl e
      | Inr v \<Rightarrow> sum_in_usd rates rest (fadd running v))"

definition set_average :: "currency_stats \<Rightarrow> currency_stats" where
  \<comment> \<open>the body of the third loop\<close>
  "set_average s =
     s\<lparr>average := (if 0 < count s then py_round (fdiv (total s) (of_nat (count s))) 2 else 0)\<rparr>"

definition get_multi_currency_summary ::
  "rate_table \<Rightarrow> ('i, 'm) invoice_scheme list \<Rightarrow> py_error + summary" where
  "get_multi_currency_summary rates invoices =
     (if invoices = [] then
        Inr \<lparr>total_by_currency = [], total_in_usd = 0, currency_breakdown = [],
             currencies_detected = None\<rparr>
      else
        let (totals, breakdown) = foldl accumulate ([], []) invoices
        in case sum_in_usd rates totals 0 of
             Inl e \<Rightarrow> Inl e
           | Inr usd \<Rightarrow>
               Inr \<lparr>total_by_currency = map (\<lambda>(c, t). (c, py_round t 2)) totals,
                    total_in_usd = py_round usd 2,
                    currency_breakdown = map (\<lambda>(c, s). (c, set_average s)) breakdown,
                    currencies_detected = Some (map fst totals)\<rparr>)"

subsection \<open>Predicates of the specification\<close>

definition first_match :: "('a \<Rightarrow> bool) \<Rightarrow> ('a \<times> 'b) list \<Rightarrow> nat \<Rightarrow> bool" where
  \<comment> \<open>entry \<open>i\<close> of the table is the first whose key satisfies \<open>P\<close>\<close>
  "first_match P table i =
     (i < length table \<and> P (fst (table ! i)) \<and> list_all (\<lambda>e. \<not> P (fst e)) (take i table))"

definition no_match :: "('a \<Rightarrow> bool) \<Rightarrow> ('a \<times> 'b) list \<Rightarrow> bool" where
  "no_match P table = list_all (\<lambda>e. \<not> P (fst e)) table"

definition dollar_not_before_space :: "ustring \<Rightarrow> bool" where
  \<comment> \<open>the text holds a dollar sign that is its last character or is followed by a
      character other than whitespace\<close>
  "dollar_not_before_space text =
     list_ex (\<lambda>t. case t of [] \<Rightarrow> False
                   | c # rest \<Rightarrow> c = 0x24 \<and> (case rest of [] \<Rightarrow> True | d # ds \<Rightarrow> \<not> is_space d))
       (tails text)"

definition baseline_usd_value :: "rat \<Rightarrow> ustring \<Rightarrow> rat" where
  \<comment> \<open>the USD value of an amount under the baseline table, in the words of the
      specification: unchanged for USD and for a code without a rate, otherwise divided by
      the rate, multiplied by the rate 1 of USD and rounded to 2 decimals\<close>
  "baseline_usd_value a c =
     (case EXCHANGE_RATES c of
        None \<Rightarrow> a
      | Some r \<Rightarrow> if c = u ''USD'' then a else py_round (fmul (fdiv a r) 1) 2)"

definition enrich_item :: "ustring \<Rightarrow> 'i line_item_scheme \<Rightarrow> 'i line_item_scheme" where
  \<comment> \<open>a line item with a cost gains its two derived fields; one without is left alone\<close>
  "enrich_item c item =
     (case cost item of
        None \<Rightarrow> item
      | Some a \<Rightarrow> item\<lparr>cost_formatted := Some (format_currency a c True),
                        cost_usd := Some (baseline_usd_value a c)\<rparr>)"

definition invoice_text :: "('i, 'm) invoice_scheme \<Rightarrow> ustring" where
  \<comment> \<open>the text that normalisation hands to detection\<close>
  "invoice_text invoice_data = join_space
     [get_default (vendor_name invoice_data) [], get_default (invoice_number invoice_data) [],
      get_default (invoice_date invoice_data) []]"

definition digits_value :: "ustring \<Rightarrow> nat" where
  \<comment> \<open>the number that a string of decimal digits denotes\<close>
  "digits_value ds = foldl (\<lambda>acc d. 10 * acc + (d - 48)) 0 ds"

definition decimal_value :: "ustring \<Rightarrow> rat" where
  \<comment> \<open>the number that a rendering with two decimals denotes: the separators and the
      decimal point are dropped, the digits are read as hundredths, a leading minus sign
      negates\<close>
  "decimal_value s =
     (let v = of_nat (digits_value (filter (\<lambda>c. c \<noteq> 44 \<and> c \<noteq> 45 \<and> c \<noteq> 46) s)) / 100
      in if s \<noteq> [] \<and> hd s = 45 then - v else v)"

definition currency_of :: "('i, 'm) invoice_scheme \<Rightarrow> ustring" where
  \<comment> \<open>the currency of an invoice, USD when the key is absent\<close>
  "currency_of invoice = get_default (currency invoice) (u ''USD'')"

definition amount_of :: "('i, 'm) invoice_scheme \<Rightarrow> rat" where
  \<comment> \<open>the raw total of an invoice, 0 when the key is absent\<close>
  "amount_of invoice = get_default (total_amount invoice) 0"

definition invoices_in :: "ustring \<Rightarrow> ('i, 'm) invoice_scheme list \<Rightarrow> ('i, 'm) invoice_scheme list" where
  "invoices_in c invoices = filter (\<lambda>i. currency_of i = c) invoices"

definition float_sum :: "rat list \<Rightarrow> rat" where
  \<comment> \<open>the numbers added to 0 one after the other, from left to right, as floats\<close>
  "float_sum xs = foldl fadd 0 xs"

definition amount_in :: "ustring \<Rightarrow> ('i, 'm) invoice_scheme list \<Rightarrow> rat" where
  \<comment> \<open>the float sum of the raw totals of the invoices of one currency, in list order\<close>
  "amount_in c invoices = float_sum (map amount_of (invoices_in c invoices))"

definition currencies_seen :: "('i, 'm) invoice_scheme list \<Rightarrow> ustring list" where
  \<comment> \<open>the currencies of the batch, each once, in the order of first appearance\<close>
  "currencies_seen invoices = rev (remdups (rev (map currency_of invoices)))"

subsection \<open>Sample data\<close>

definition sample_item :: "rat option \<Rightarrow> line_item" where
  "sample_item c =
     \<lparr>description = Some (u ''Consulting''), cost = c, cost_formatted = None, cost_usd = None\<rparr>"

definition sample_invoice ::
  "ustring option \<Rightarrow> rat option \<Rightarrow> line_item list option \<Rightarrow> ustring option \<Rightarrow> unit invoice" where
  "sample_invoice vendor amount items code =
     \<lparr>vendor_name = vendor, invoice_number = Some (u ''INV-1''),
      invoice_date = Some (u ''2024-03-01''), total_amount = amount, line_items = items,
      currency = code, currency_confidence = None, currency_symbol = None,
      total_amount_formatted = None, total_amount_usd = None, flagged = None\<rparr>"

subsection \<open>Rounding to the nearest integer\<close>

lemma round_half_even_int: "round_half_even (of_int n) = n"
  by (simp add: round_half_even_def)

lemma round_half_even_near:
  assumes "\<bar>x - of_int n\<bar> < 1 / 2"
  shows "round_half_even x = n"
proof (cases "of_int n \<le> x")
  case True
  then have f: "\<lfloor>x\<rfloor> = n"
    using assms by (intro floor_unique) auto
  show ?thesis
    using assms True by (simp add: round_half_even_def f)
next
  case False
  then have f: "\<lfloor>x\<rfloor> = n - 1"
    using assms by (intro floor_unique) auto
  show ?thesis
    using assms False by (simp add: round_half_even_def f)
qed

lemma round_half_even_tie:
  assumes "x = of_int n + 1 / 2"
  shows "round_half_even x = (if even n then n else n + 1)"
proof -
  have f: "\<lfloor>x\<rfloor> = n"
    using assms by (intro floor_unique) auto
  have d: "x - of_int n = 1 / 2"
    using assms by simp
  show ?thesis
    unfolding round_half_even_def Let_def f d by simp
qed

lemma floor_le_round_half_even: "\<lfloor>x\<rfloor> \<le> round_half_even x"
  by (simp add: round_half_even_def Let_def)

lemma round_half_even_le_ceiling: "round_half_even x \<le> \<lceil>x\<rceil>"
proof (cases "x = of_int \<lfloor>x\<rfloor>")
  case True
  then obtain k where "x = of_int k" ..
  then show ?thesis by (simp add: round_half_even_int)
next
  case False
  then have "\<lceil>x\<rceil> = \<lfloor>x\<rfloor> + 1"
    by (simp add: ceiling_altdef)
  then show ?thesis
    by (simp add: round_half_even_def Let_def)
qed

lemma round_half_even_minus: "round_half_even (- x) = - round_half_even x"
proof (cases "x = of_int \<lfloor>x\<rfloor>")
  case True
  then obtain k where "x = of_int k" ..
  then show ?thesis
    by (simp add: round_half_even_def flip: of_int_minus)
next
  case False
  then have f: "\<lfloor>- x\<rfloor> = - \<lfloor>x\<rfloor> - 1"
    by (simp add: floor_minus ceiling_altdef)
  show ?thesis
    by (auto simp add: round_half_even_def Let_def f)
qed

subsection \<open>Rounding to the nearest double\<close>

lemma pow2_pos: "0 < (2::rat) powi e"
  by simp

lemma pow2_mono: "a \<le> b \<Longrightarrow> (2::rat) powi a \<le> 2 powi b"
  by (rule power_int_increasing) simp_all

lemma pow2_add: "(2::rat) powi (a + b) = 2 powi a * 2 powi b"
  by (simp add: power_int_add)

lemma find_upto_first:
  assumes "lo \<le> e" and "e \<le> hi" and "P e" and "\<And>e'. lo \<le> e' \<Longrightarrow> e' < e \<Longrightarrow> \<not> P e'"
  shows "find P [lo..hi] = Some e"
proof -
  let ?i = "nat (e - lo)"
  have len: "?i < length [lo..hi]"
    using assms(1,2) by simp
  have at: "[lo..hi] ! ?i = e"
    using assms(1,2) by simp
  have before: "\<not> P ([lo..hi] ! j)" if "j < ?i" for j
  proof -
    have j: "[lo..hi] ! j = lo + int j"
      using that assms(1,2) by simp
    show ?thesis
      unfolding j using that by (intro assms(4)) linarith+
  qed
  show ?thesis
    unfolding find_Some_iff
    using len at before assms(3) by (intro exI [of _ ?i]) auto
qed

lemma find_upto_Some:
  assumes "find P [lo..hi] = Some e"
  shows "lo \<le> e \<and> e \<le> hi \<and> P e \<and> (\<forall>e'. lo \<le> e' \<and> e' < e \<longrightarrow> \<not> P e')"
proof -
  obtain i where i: "i < length [lo..hi]" "P ([lo..hi] ! i)" "e = [lo..hi] ! i"
    and before: "\<forall>j<i. \<not> P ([lo..hi] ! j)"
    using assms unfolding find_Some_iff by blast
  have e: "e = lo + int i"
    using i by simp
  have "\<not> P e'" if "lo \<le> e'" "e' < e" for e'
  proof -
    have "nat (e' - lo) < i"
      using that e by linarith
    then have "\<not> P ([lo..hi] ! nat (e' - lo))"
      using before by blast
    moreover have "[lo..hi] ! nat (e' - lo) = e'"
      using that e i by simp
    ultimately show ?thesis by simp
  qed
  then show ?thesis
    using i e by auto
qed

lemma find_upto_None:
  assumes "find P [lo..hi] = None" and "lo \<le> e" and "e \<le> hi"
  shows "\<not> P e"
  using assms unfolding find_None_iff by simp

lemma ulp_exponent_eq:
  assumes "E_MIN \<le> e" and "e \<le> E_MAX" and "\<bar>x\<bar> < 2 powi (e + 53)"
    and "e = E_MIN \<or> 2 powi (e + 52) \<le> \<bar>x\<bar>"
  shows "ulp_exponent x = e"
proof -
  have "\<not> \<bar>x\<bar> < 2 powi (e' + 53)" if "E_MIN \<le> e'" "e' < e" for e'
  proof -
    have "e' + 53 \<le> e + 52"
      using that by linarith
    then have "(2::rat) powi (e' + 53) \<le> 2 powi (e + 52)"
      by (rule pow2_mono)
    moreover have "2 powi (e + 52) \<le> \<bar>x\<bar>"
      using assms(4) that by auto
    ultimately show ?thesis
      by linarith
  qed
  then have "find (\<lambda>e. \<bar>x\<bar> < 2 powi (e + 53)) [E_MIN..E_MAX] = Some e"
    using assms(1-3) by (intro find_upto_first) auto
  then show ?thesis
    by (simp add: ulp_exponent_def)
qed

lemma ulp_exponent_range: "E_MIN \<le> ulp_exponent x \<and> ulp_exponent x \<le> E_MAX"
proof (cases "find (\<lambda>e. \<bar>x\<bar> < 2 powi (e + 53)) [E_MIN..E_MAX]")
  case None
  then show ?thesis by (simp add: ulp_exponent_def E_MIN_def E_MAX_def)
next
  case (Some e)
  with find_upto_Some [OF Some] show ?thesis by (simp add: ulp_exponent_def)
qed

lemma ulp_exponent_lower:
  "ulp_exponent x = E_MIN \<or> 2 powi (ulp_exponent x + 52) \<le> \<bar>x\<bar>"
proof (cases "find (\<lambda>e. \<bar>x\<bar> < 2 powi (e + 53)) [E_MIN..E_MAX]")
  case None
  have "\<not> \<bar>x\<bar> < 2 powi (E_MAX - 1 + 53)"
    by (rule find_upto_None [OF None]) (simp_all add: E_MIN_def E_MAX_def)
  with None show ?thesis
    by (simp add: ulp_exponent_def algebra_simps)
next
  case (Some e)
  note s = find_upto_Some [OF Some]
  show ?thesis
  proof (cases "e = E_MIN")
    case True
    with Some show ?thesis by (simp add: ulp_exponent_def)
  next
    case False
    then have "\<not> \<bar>x\<bar> < 2 powi (e - 1 + 53)"
      using s by (intro s [THEN conjunct2, THEN conjunct2, THEN conjunct2, rule_format]) auto
    then have "2 powi (e + 52) \<le> \<bar>x\<bar>"
      by (simp add: algebra_simps)
    with Some show ?thesis by (simp add: ulp_exponent_def)
  qed
qed

lemma ulp_exponent_upper:
  "ulp_exponent x = E_MAX \<or> \<bar>x\<bar> < 2 powi (ulp_exponent x + 53)"
proof (cases "find (\<lambda>e. \<bar>x\<bar> < 2 powi (e + 53)) [E_MIN..E_MAX]")
  case None
  then show ?thesis by (simp add: ulp_exponent_def)
next
  case (Some e)
  with find_upto_Some [OF Some] show ?thesis by (simp add: ulp_exponent_def)
qed

lemma double_of_eq:
  assumes "E_MIN \<le> e" and "e \<le> E_MAX" and "\<bar>x\<bar> < 2 powi (e + 53)"
    and "e = E_MIN \<or> 2 powi (e + 52) \<le> \<bar>x\<bar>"
    and "\<bar>x / 2 powi e - of_int m\<bar> < 1 / 2"
  shows "double_of x = of_int m * 2 powi e"
  using ulp_exponent_eq [OF assms(1-4)] round_half_even_near [OF assms(5)]
  by (simp add: double_of_def)

lemma double_of_eq_tie:
  assumes "E_MIN \<le> e" and "e \<le> E_MAX" and "\<bar>x\<bar> < 2 powi (e + 53)"
    and "e = E_MIN \<or> 2 powi (e + 52) \<le> \<bar>x\<bar>"
    and "x / 2 powi e = of_int n + 1 / 2"
  shows "double_of x = of_int (if even n then n else n + 1) * 2 powi e"
  using ulp_exponent_eq [OF assms(1-4)] round_half_even_tie [OF assms(5)]
  by (simp add: double_of_def)

lemma double_of_0: "double_of 0 = 0"
  by (simp add: double_of_def round_half_even_def)

lemma double_of_1: "double_of 1 = 1"
  using double_of_eq [of "- 52" 1 "2 ^ 52"] by (simp add: E_MIN_def E_MAX_def)

lemma ulp_exponent_le:
  assumes "E_MIN \<le> e" and "e \<le> E_MAX" and "\<bar>y\<bar> < 2 powi (e + 53)"
  shows "ulp_exponent y \<le> e"
proof (cases "find (\<lambda>e. \<bar>y\<bar> < 2 powi (e + 53)) [E_MIN..E_MAX]")
  case None
  from find_upto_None [OF None assms(1,2)] assms(3) show ?thesis by simp
next
  case (Some w)
  note s = find_upto_Some [OF Some]
  have "\<not> e < w"
    using s assms by blast
  with Some show ?thesis by (simp add: ulp_exponent_def)
qed

lemma multiple_of_ulp:
  assumes "w \<le> e"
  shows "of_int m * 2 powi e / 2 powi w = (of_int (m * 2 ^ nat (e - w)) :: rat)"
proof -
  have "(2::rat) powi e = 2 powi (e - w) * 2 powi w"
    by (simp flip: power_int_add)
  moreover have "(2::rat) powi (e - w) = 2 ^ nat (e - w)"
    using assms by (simp add: power_int_def)
  ultimately show ?thesis by simp
qed

lemma double_of_exact:
  assumes "y / 2 powi ulp_exponent y = of_int k"
  shows "double_of y = y"
proof -
  have "double_of y = of_int k * 2 powi ulp_exponent y"
    by (simp add: double_of_def Let_def assms round_half_even_int)
  also have "\<dots> = y"
    using assms [symmetric] by simp
  finally show ?thesis .
qed

lemma double_of_multiple:
  assumes "ulp_exponent (of_int m * 2 powi e) \<le> e"
  shows "double_of (of_int m * 2 powi e) = of_int m * 2 powi e"
  by (rule double_of_exact) (rule multiple_of_ulp [OF assms])

lemma mantissa_bound:
  assumes "\<bar>x\<bar> < 2 powi (e + 53)"
  shows "\<bar>round_half_even (x / 2 powi e)\<bar> \<le> 2 ^ 53"
proof -
  define q where "q = x / 2 powi e"
  have "\<bar>q\<bar> < 2 ^ 53"
    using assms by (simp add: q_def power_int_add abs_mult divide_less_eq)
  then have "q \<le> 2 ^ 53" and "- (2 ^ 53) \<le> q"
    by linarith+
  then have up: "x / 2 powi e \<le> 2 ^ 53" and lo: "- (2 ^ 53) \<le> x / 2 powi e"
    by (simp_all add: q_def)
  have "\<lceil>x / 2 powi e\<rceil> \<le> 2 ^ 53"
    using up by (simp add: ceiling_le_iff)
  then have a: "round_half_even (x / 2 powi e) \<le> 2 ^ 53"
    using round_half_even_le_ceiling [of "x / 2 powi e"] by linarith
  have "- (2 ^ 53) \<le> \<lfloor>x / 2 powi e\<rfloor>"
    using lo by (simp add: le_floor_iff)
  then have b: "- (2 ^ 53) \<le> round_half_even (x / 2 powi e)"
    using floor_le_round_half_even [of "x / 2 powi e"] by linarith
  from a b show ?thesis by (simp add: abs_le_iff)
qed

lemma double_of_idem: "double_of (double_of x) = double_of x"
proof -
  define e where "e = ulp_exponent x"
  define m where "m = round_half_even (x / 2 powi e)"
  define y where "y = of_int m * (2::rat) powi e"
  have y: "double_of x = y"
    by (simp add: double_of_def Let_def e_def m_def y_def)
  have range: "E_MIN \<le> e" "e \<le> E_MAX"
    using ulp_exponent_range [of x] by (simp_all add: e_def)
  have "double_of y = y"
  proof (cases "\<bar>y\<bar> < 2 powi (e + 53)")
    case True
    then have "ulp_exponent y \<le> e"
      by (rule ulp_exponent_le [OF range])
    then show ?thesis
      unfolding y_def by (rule double_of_multiple)
  next
    case big: False
    show ?thesis
    proof (cases "e = E_MAX")
      case True
      then have "ulp_exponent y \<le> e"
        using ulp_exponent_range [of y] by simp
      then show ?thesis
        unfolding y_def by (rule double_of_multiple)
    next
      case False
      then have "\<bar>x\<bar> < 2 powi (e + 53)"
        using ulp_exponent_upper [of x] by (simp add: e_def)
      then have mb: "\<bar>m\<bar> \<le> 2 ^ 53"
        unfolding m_def by (rule mantissa_bound)
      have "\<bar>y\<bar> = of_int \<bar>m\<bar> * 2 powi e"
        by (simp add: y_def abs_mult)
      moreover have "(2::rat) powi (e + 53) = 2 ^ 53 * 2 powi e"
        by (simp add: power_int_add)
      ultimately have "(2::rat) ^ 53 \<le> of_int \<bar>m\<bar>"
        using big by simp
      then have "2 ^ 53 \<le> \<bar>m\<bar>"
        by (metis of_int_le_iff of_int_numeral of_int_power)
      with mb have m: "\<bar>m\<bar> = 2 ^ 53" by simp
      then have "m = 2 ^ 53 \<or> m = - (2 ^ 53)"
        by linarith
      then have "even m"
        by auto
      then have m2: "m = (m div 2) * 2"
        by simp
      have y2: "y = of_int (m div 2) * 2 powi (e + 1)"
      proof -
        have "y = of_int ((m div 2) * 2) * 2 powi e"
          using m2 by (simp add: y_def)
        also have "\<dots> = of_int (m div 2) * 2 powi (e + 1)"
          by (simp add: power_int_add)
        finally show ?thesis .
      qed
      have "\<bar>y\<bar> = 2 ^ 53 * 2 powi e"
        using m by (simp add: y_def abs_mult flip: of_int_abs)
      also have "\<dots> < 2 ^ 54 * 2 powi e"
        by simp
      also have "\<dots> = 2 powi (e + 1 + 53)"
        by (simp add: power_int_add)
      finally have "\<bar>y\<bar> < 2 powi (e + 1 + 53)" .
      then have "ulp_exponent y \<le> e + 1"
        using range False by (intro ulp_exponent_le) auto
      then show ?thesis
        unfolding y2 by (rule double_of_multiple)
    qed
  qed
  then show ?thesis
    by (simp add: y)
qed

lemma double_of_pos:
  assumes "2 powi (- 1022) \<le> x"
  shows "0 < double_of x"
proof -
  define e where "e = ulp_exponent x"
  have x: "0 < x"
    using assms pow2_pos [of "- 1022"] by linarith
  have "2 powi (e + 52) \<le> \<bar>x\<bar>"
    using ulp_exponent_lower [of x] assms x by (auto simp add: e_def E_MIN_def)
  then have "2 powi (e + 52) \<le> x"
    using x by simp
  moreover have "(2::rat) powi (e + 52) = 2 ^ 52 * 2 powi e"
    by (simp add: power_int_add)
  ultimately have "(2::rat) ^ 52 \<le> x / 2 powi e"
    by (simp add: le_divide_eq)
  then have "2 ^ 52 \<le> \<lfloor>x / 2 powi e\<rfloor>"
    by (simp add: le_floor_iff)
  moreover have "(0::int) < 2 ^ 52"
    by simp
  ultimately have "0 < round_half_even (x / 2 powi e)"
    using floor_le_round_half_even [of "x / 2 powi e"] by linarith
  then show ?thesis
    by (simp add: double_of_def Let_def e_def)
qed

lemma double_of_pos_half:
  assumes "1 / 2 \<le> x"
  shows "0 < double_of x"
proof -
  have "(2::rat) powi (- 1022) \<le> 2 powi (- 1)"
    by (rule pow2_mono) simp
  also have "\<dots> = 1 / 2"
    by simp
  finally have "2 powi (- 1022) \<le> x"
    using assms by simp
  then show ?thesis
    by (rule double_of_pos)
qed

lemma double_of_fadd: "double_of (fadd a b) = fadd a b"
  by (simp add: fadd_def double_of_idem)

lemma double_of_fmul: "double_of (fmul a b) = fmul a b"
  by (simp add: fmul_def double_of_idem)

lemma double_of_fdiv: "double_of (fdiv a b) = fdiv a b"
  by (simp add: fdiv_def double_of_idem)

lemma double_of_py_round: "double_of (py_round x n) = py_round x n"
  by (simp add: py_round_def double_of_idem)

lemma fadd_0_left: "fadd 0 a = double_of a"
  by (simp add: fadd_def double_of_0 double_of_idem)

lemma fmul_1_right: "fmul a 1 = double_of a"
  by (simp add: fmul_def double_of_1 double_of_idem)

lemma fdiv_1_right: "fdiv a 1 = double_of a"
  by (simp add: fdiv_def double_of_1 double_of_idem)

lemma py_round_near:
  assumes "\<bar>double_of x * 100 - of_int n\<bar> < 1 / 2"
  shows "py_round x 2 = double_of (of_int n / 100)"
proof -
  have "round_half_even (double_of x * 10 ^ 2) = n"
    using assms by (intro round_half_even_near) simp
  then show ?thesis
    by (simp add: py_round_def round_decimal_def)
qed

lemma py_round_tie:
  assumes "double_of x * 100 = of_int n + 1 / 2"
  shows "py_round x 2 = double_of (of_int (if even n then n else n + 1) / 100)"
proof -
  have "round_half_even (double_of x * 10 ^ 2) = (if even n then n else n + 1)"
    using assms by (intro round_half_even_tie) simp
  then show ?thesis
    by (simp add: py_round_def round_decimal_def)
qed

lemma py_round_0: "py_round 0 2 = 0"
  using py_round_near [of 0 0] by (simp add: double_of_0)

subsection \<open>Some doubles\<close>

lemma dbl_119_100: "double_of (119 / 100) = 2679641778285445 / 2251799813685248"
  using double_of_eq [of "- 52" "119 / 100" 5359283556570890] by (simp add: E_MIN_def E_MAX_def)

lemma dbl_34_25: "double_of (34 / 25) = 6124895493223875 / 4503599627370496"
  using double_of_eq [of "- 52" "34 / 25" 6124895493223875] by (simp add: E_MIN_def E_MAX_def)

lemma dbl_23_25: "double_of (23 / 25) = 8286623314361713 / 9007199254740992"
  using double_of_eq [of "- 53" "23 / 25" 8286623314361713] by (simp add: E_MIN_def E_MAX_def)

lemma dbl_299_2: "double_of (299 / 2) = 299 / 2"
  using double_of_eq [of "- 45" "299 / 2" 5260063627280384] by (simp add: E_MIN_def E_MAX_def)

lemma dbl_2: "double_of 2 = 2"
  using double_of_eq [of "- 51" "2" 4503599627370496] by (simp add: E_MIN_def E_MAX_def)

lemma dbl_100: "double_of 100 = 100"
  using double_of_eq [of "- 46" "100" 7036874417766400] by (simp add: E_MIN_def E_MAX_def)

lemma dbl_299_16: "double_of (299 / 16) = 299 / 16"
  using double_of_eq [of "- 48" "299 / 16" 5260063627280384] by (simp add: E_MIN_def E_MAX_def)

lemma dbl_897_16: "double_of (897 / 16) = 897 / 16"
  using double_of_eq [of "- 47" "897 / 16" 7890095440920576] by (simp add: E_MIN_def E_MAX_def)

lemma dbl_1_8: "double_of (1 / 8) = 1 / 8"
  using double_of_eq [of "- 55" "1 / 8" 4503599627370496] by (simp add: E_MIN_def E_MAX_def)

lemma dbl_3_8: "double_of (3 / 8) = 3 / 8"
  using double_of_eq [of "- 54" "3 / 8" 6755399441055744] by (simp add: E_MIN_def E_MAX_def)

lemma dbl_1_100: "double_of (1 / 100) = 5764607523034235 / 576460752303423488"
  using double_of_eq [of "- 59" "1 / 100" 5764607523034235] by (simp add: E_MIN_def E_MAX_def)

lemma dbl_1_50: "double_of (1 / 50) = 5764607523034235 / 288230376151711744"
  using double_of_eq [of "- 58" "1 / 50" 5764607523034235] by (simp add: E_MIN_def E_MAX_def)

lemma dbl_1_10: "double_of (1 / 10) = 3602879701896397 / 36028797018963968"
  using double_of_eq [of "- 56" "1 / 10" 7205759403792794] by (simp add: E_MIN_def E_MAX_def)

lemma dbl_1_5: "double_of (1 / 5) = 3602879701896397 / 18014398509481984"
  using double_of_eq [of "- 55" "1 / 5" 7205759403792794] by (simp add: E_MIN_def E_MAX_def)

lemma dbl_3_10: "double_of (3 / 10) = 5404319552844595 / 18014398509481984"
  using double_of_eq [of "- 54" "3 / 10" 5404319552844595] by (simp add: E_MIN_def E_MAX_def)

lemma dbl_1087_10: "double_of (1087 / 10) = 7649082492112077 / 70368744177664"
  using double_of_eq [of "- 46" "1087 / 10" 7649082492112077] by (simp add: E_MIN_def E_MAX_def)

lemma dbl_92: "double_of 92 = 92"
  using double_of_eq [of "- 46" "92" 6473924464345088] by (simp add: E_MIN_def E_MAX_def)

lemma dbl_3_100: "double_of (3 / 100) = 1080863910568919 / 36028797018963968"
  using double_of_eq [of "- 58" "3 / 100" 8646911284551352] by (simp add: E_MIN_def E_MAX_def)

lemma dbl_3_20: "double_of (3 / 20) = 5404319552844595 / 36028797018963968"
  using double_of_eq [of "- 55" "3 / 20" 5404319552844595] by (simp add: E_MIN_def E_MAX_def)

lemma dbl_87_100: "double_of (87 / 100) = 7836263351624663 / 9007199254740992"
  using double_of_eq [of "- 53" "87 / 100" 7836263351624663] by (simp add: E_MIN_def E_MAX_def)

lemma dbl_q_119_cad: "double_of (double_of (119 / 100) / double_of (34 / 25)) = 7881299347898367 / 9007199254740992"
proof -
  have v: "double_of (119 / 100) / double_of (34 / 25) = 1071856711314178 / 1224979098644775"
    by (simp add: dbl_119_100 dbl_34_25)
  show ?thesis
    unfolding v using double_of_eq [of "- 53" "1071856711314178 / 1224979098644775" 7881299347898367]
    by (simp add: E_MIN_def E_MAX_def)
qed

lemma dbl_m_100_eur: "double_of (100 * double_of (23 / 25)) = 92"
proof -
  have v: "100 * double_of (23 / 25) = 207165582859042825 / 2251799813685248"
    by (simp add: dbl_23_25)
  show ?thesis
    unfolding v using double_of_eq [of "- 46" "207165582859042825 / 2251799813685248" 6473924464345088]
    by (simp add: E_MIN_def E_MAX_def)
qed

lemma dbl_q_100_eur: "double_of (100 / double_of (23 / 25)) = 3824388270525217 / 35184372088832"
proof -
  have v: "100 / double_of (23 / 25) = 900719925474099200 / 8286623314361713"
    by (simp add: dbl_23_25)
  show ?thesis
    unfolding v using double_of_eq [of "- 46" "900719925474099200 / 8286623314361713" 7648776541050434]
    by (simp add: E_MIN_def E_MAX_def)
qed

lemma dbl_s_001_002: "double_of (double_of (1 / 100) + double_of (1 / 50)) = 1080863910568919 / 36028797018963968"
proof -
  have v: "double_of (1 / 100) + double_of (1 / 50) = 17293822569102705 / 576460752303423488"
    by (simp add: dbl_1_100 dbl_1_50)
  show ?thesis
    unfolding v using double_of_eq_tie [of "- 58" "17293822569102705 / 576460752303423488" 8646911284551352]
    by (simp add: E_MIN_def E_MAX_def)
qed

lemma dbl_h_001_002: "double_of (double_of (double_of (1 / 100) + double_of (1 / 50)) / 2) = 1080863910568919 / 72057594037927936"
proof -
  have v: "double_of (double_of (1 / 100) + double_of (1 / 50)) / 2 = 1080863910568919 / 72057594037927936"
    by (simp add: dbl_s_001_002)
  show ?thesis
    unfolding v using double_of_eq [of "- 59" "1080863910568919 / 72057594037927936" 8646911284551352]
    by (simp add: E_MIN_def E_MAX_def)
qed

lemma dbl_s_01_02: "double_of (double_of (1 / 10) + double_of (1 / 5)) = 1351079888211149 / 4503599627370496"
proof -
  have v: "double_of (1 / 10) + double_of (1 / 5) = 10808639105689191 / 36028797018963968"
    by (simp add: dbl_1_10 dbl_1_5)
  show ?thesis
    unfolding v using double_of_eq_tie [of "- 54" "10808639105689191 / 36028797018963968" 5404319552844595]
    by (simp add: E_MIN_def E_MAX_def)
qed

lemma dbl_h_01_02: "double_of (double_of (double_of (1 / 10) + double_of (1 / 5)) / 2) = 1351079888211149 / 9007199254740992"
proof -
  have v: "double_of (double_of (1 / 10) + double_of (1 / 5)) / 2 = 1351079888211149 / 9007199254740992"
    by (simp add: dbl_s_01_02)
  show ?thesis
    unfolding v using double_of_eq [of "- 55" "1351079888211149 / 9007199254740992" 5404319552844596]
    by (simp add: E_MIN_def E_MAX_def)
qed

lemma dbl_g_003_1087: "double_of (double_of (double_of (1 / 100) + double_of (1 / 50)) + double_of (1087 / 10)) = 7651193554437407 / 70368744177664"
proof -
  have v: "double_of (double_of (1 / 100) + double_of (1 / 50)) + double_of (1087 / 10) = 3917411099871952343 / 36028797018963968"
    by (simp add: dbl_s_001_002 dbl_1087_10)
  show ?thesis
    unfolding v using double_of_eq [of "- 46" "3917411099871952343 / 36028797018963968" 7651193554437407]
    by (simp add: E_MIN_def E_MAX_def)
qed

subsection \<open>Facts about the baseline table\<close>

lemma EXCHANGE_RATES_positive: "EXCHANGE_RATES c = Some r \<Longrightarrow> 0 < r"
  by (auto simp add: EXCHANGE_RATES_def u_def double_of_1 split: if_splits
      intro!: double_of_pos_half)

lemma EXCHANGE_RATES_double: "EXCHANGE_RATES c = Some r \<Longrightarrow> double_of r = r"
  by (auto simp add: EXCHANGE_RATES_def u_def double_of_idem split: if_splits)

lemma EXCHANGE_RATES_nonzero: "EXCHANGE_RATES c = Some r \<Longrightarrow> double_of r \<noteq> 0"
  using EXCHANGE_RATES_positive [of c r] EXCHANGE_RATES_double [of c r] by simp

lemma EXCHANGE_RATES_XXX: "EXCHANGE_RATES (u ''XXX'') = None"
  by (simp add: EXCHANGE_RATES_def u_def)

lemma EXCHANGE_RATES_USD: "EXCHANGE_RATES (u ''USD'') = Some 1"
  by (simp add: EXCHANGE_RATES_def u_def double_of_1)

lemma EXCHANGE_RATES_EUR: "EXCHANGE_RATES (u ''EUR'') = Some (double_of (23 / 25))"
  by (simp add: EXCHANGE_RATES_def u_def)

lemma EXCHANGE_RATES_CAD: "EXCHANGE_RATES (u ''CAD'') = Some (double_of (34 / 25))"
  by (simp add: EXCHANGE_RATES_def u_def)

lemma EXCHANGE_RATES_JPY: "EXCHANGE_RATES (u ''JPY'') = Some (299 / 2)"
  by (simp add: EXCHANGE_RATES_def u_def dbl_299_2)

lemma EUR_neq_USD: "u ''EUR'' \<noteq> u ''USD''"
  by (simp add: u_def)

lemma XXX_neq_USD: "u ''XXX'' \<noteq> u ''USD''"
  by (simp add: u_def)

lemma CAD_neq_USD: "u ''CAD'' \<noteq> u ''USD''"
  by (simp add: u_def)

lemma JPY_neq_USD: "u ''JPY'' \<noteq> u ''USD''"
  by (simp add: u_def)

subsection \<open>Conversion through USD\<close>

lemma convert_pivot:
  assumes "from_currency \<noteq> to_currency"
    and "EXCHANGE_RATES from_currency = Some from_rate"
    and "EXCHANGE_RATES to_currency = Some to_rate"
  shows "convert_currency EXCHANGE_RATES a from_currency to_currency =
           Inr (py_round
                  (fmul (if from_currency \<noteq> u ''USD'' then fdiv a from_rate else a) to_rate) 2)"
  using assms EXCHANGE_RATES_nonzero [OF assms(2)]
  by (simp add: convert_currency_def py_div_def)

lemma pivot_119_cad:
  "py_round (fmul (fdiv (double_of (119 / 100)) (double_of (34 / 25))) 1) 2 = double_of (87 / 100)"
proof -
  have q: "fdiv (double_of (119 / 100)) (double_of (34 / 25)) =
      7881299347898367 / 9007199254740992"
    by (simp add: fdiv_def double_of_idem dbl_q_119_cad)
  have dq: "double_of (7881299347898367 / 9007199254740992) =
      7881299347898367 / 9007199254740992"
    using double_of_fdiv [of "double_of (119 / 100)" "double_of (34 / 25)"] unfolding q .
  have "py_round (7881299347898367 / 9007199254740992) 2 = double_of (87 / 100)"
    using py_round_near [of "7881299347898367 / 9007199254740992" 87] by (simp add: dq)
  then show ?thesis
    by (simp add: fmul_1_right q dq)
qed

lemma pivot_tie_down:
  "py_round (fmul (fdiv (299 / 16) (299 / 2)) 1) 2 = double_of (12 / 100)"
proof -
  have q: "fdiv (299 / 16) (299 / 2) = 1 / 8"
    by (simp add: fdiv_def dbl_299_16 dbl_299_2 dbl_1_8)
  have "py_round (1 / 8) 2 = double_of (12 / 100)"
    using py_round_tie [of "1 / 8" 12] by (simp add: dbl_1_8)
  then show ?thesis
    by (simp add: fmul_1_right q dbl_1_8)
qed

lemma pivot_tie_up:
  "py_round (fmul (fdiv (897 / 16) (299 / 2)) 1) 2 = double_of (38 / 100)"
proof -
  have q: "fdiv (897 / 16) (299 / 2) = 3 / 8"
    by (simp add: fdiv_def dbl_897_16 dbl_299_2 dbl_3_8)
  have "py_round (3 / 8) 2 = double_of (38 / 100)"
    using py_round_tie [of "3 / 8" 37] by (simp add: dbl_3_8)
  then show ?thesis
    by (simp add: fmul_1_right q dbl_3_8)
qed

lemma pivot_100_usd_eur: "py_round (fmul 100 (double_of (23 / 25))) 2 = 92"
proof -
  have m: "fmul 100 (double_of (23 / 25)) = 92"
    by (simp add: fmul_def double_of_idem dbl_100 dbl_m_100_eur)
  have "py_round 92 2 = 92"
    using py_round_near [of 92 9200] by (simp add: dbl_92)
  then show ?thesis
    by (simp add: m)
qed

lemma pivot_100_eur:
  "py_round (fmul (fdiv 100 (double_of (23 / 25))) 1) 2 = double_of (1087 / 10)"
proof -
  have q: "fdiv 100 (double_of (23 / 25)) = 3824388270525217 / 35184372088832"
    by (simp add: fdiv_def double_of_idem dbl_100 dbl_q_100_eur)
  have dq: "double_of (3824388270525217 / 35184372088832) = 3824388270525217 / 35184372088832"
    using double_of_fdiv [of 100 "double_of (23 / 25)"] unfolding q .
  have "py_round (3824388270525217 / 35184372088832) 2 = double_of (1087 / 10)"
    using py_round_near [of "3824388270525217 / 35184372088832" 10870] by (simp add: dq)
  then show ?thesis
    by (simp add: fmul_1_right q dq)
qed

lemma pivot_0: "py_round (fmul (fdiv 0 r) 1) 2 = 0"
  by (simp add: fmul_1_right double_of_fdiv) (simp add: fdiv_def double_of_0 py_round_0)

subsection \<open>Conversion: the claims\<close>

text \<open>
  C5. For every amount and every pair of distinct currency codes that both have a rate in
  the exchange-rate table, \<open>convert_currency\<close> returns the amount divided by the source
  rate (unless the source is USD, when the amount is taken as it is), multiplied by the
  target rate and rounded to 2 decimal places, each step in double arithmetic: a single
  pivot through USD. So 1.19 CAD is 0.87 USD, 18.6875 JPY is 0.12 USD and 56.0625 JPY is
  0.38 USD (the quotients 0.125 and 0.375 are ties, rounded to the even cent), and 100 USD
  is 92.0 EUR.
\<close>

theorem convert_currency_pivot:
  "(from_currency \<noteq> to_currency
      \<and> EXCHANGE_RATES from_currency = Some from_rate
      \<and> EXCHANGE_RATES to_currency = Some to_rate
      \<longrightarrow> convert_currency EXCHANGE_RATES a from_currency to_currency =
            Inr (py_round
                   (fmul (if from_currency \<noteq> u ''USD'' then fdiv a from_rate else a) to_rate)
                   2))
   \<and> convert_currency EXCHANGE_RATES (double_of (119 / 100)) (u ''CAD'') (u ''USD'') =
       Inr (double_of (87 / 100))
   \<and> convert_currency EXCHANGE_RATES (299 / 16) (u ''JPY'') (u ''USD'') =
       Inr (double_of (12 / 100))
   \<and> convert_currency EXCHANGE_RATES (897 / 16) (u ''JPY'') (u ''USD'') =
       Inr (double_of (38 / 100))
   \<and> convert_currency EXCHANGE_RATES 100 (u ''USD'') (u ''EUR'') = Inr 92"
proof -
  have a: "convert_currency EXCHANGE_RATES (double_of (119 / 100)) (u ''CAD'') (u ''USD'') =
       Inr (double_of (87 / 100))"
    using convert_pivot [OF CAD_neq_USD EXCHANGE_RATES_CAD EXCHANGE_RATES_USD]
    by (simp only: CAD_neq_USD pivot_119_cad not_False_eq_True if_True)
  have b: "convert_currency EXCHANGE_RATES (299 / 16) (u ''JPY'') (u ''USD'') =
       Inr (double_of (12 / 100))"
    using convert_pivot [OF JPY_neq_USD EXCHANGE_RATES_JPY EXCHANGE_RATES_USD]
    by (simp only: JPY_neq_USD pivot_tie_down not_False_eq_True if_True)
  have c: "convert_currency EXCHANGE_RATES (897 / 16) (u ''JPY'') (u ''USD'') =
       Inr (double_of (38 / 100))"
    using convert_pivot [OF JPY_neq_USD EXCHANGE_RATES_JPY EXCHANGE_RATES_USD]
    by (simp only: JPY_neq_USD pivot_tie_up not_False_eq_True if_True)
  have d: "convert_currency EXCHANGE_RATES 100 (u ''USD'') (u ''EUR'') = Inr 92"
    using convert_pivot [OF EUR_neq_USD [symmetric] EXCHANGE_RATES_USD EXCHANGE_RATES_EUR]
    by (simp only: pivot_100_usd_eur simp_thms if_False)
  show ?thesis
    using a b c d convert_pivot [of from_currency to_currency from_rate to_rate a]
    by blast
qed

theorem convert_currency_pivot_witness:
  "u ''CAD'' \<noteq> u ''USD''
   \<and> EXCHANGE_RATES (u ''CAD'') = Some (double_of (34 / 25))
   \<and> EXCHANGE_RATES (u ''USD'') = Some 1
   \<and> convert_currency EXCHANGE_RATES (double_of (119 / 100)) (u ''CAD'') (u ''USD'') =
       Inr (py_round (fmul (fdiv (double_of (119 / 100)) (double_of (34 / 25))) 1) 2)
   \<and> py_round (fmul (fdiv (double_of (119 / 100)) (double_of (34 / 25))) 1) 2 =
       double_of (87 / 100)
   \<and> double_of (87 / 100) = 7836263351624663 / 9007199254740992"
proof -
  have "convert_currency EXCHANGE_RATES (double_of (119 / 100)) (u ''CAD'') (u ''USD'') =
       Inr (py_round (fmul (fdiv (double_of (119 / 100)) (double_of (34 / 25))) 1) 2)"
    using convert_currency_pivot
      [of "u ''CAD''" "u ''USD''" "double_of (34 / 25)" 1 "double_of (119 / 100)"]
      CAD_neq_USD EXCHANGE_RATES_CAD EXCHANGE_RATES_USD
    by (simp only: simp_thms if_True)
  then show ?thesis
    using CAD_neq_USD EXCHANGE_RATES_CAD EXCHANGE_RATES_USD pivot_119_cad dbl_87_100
    by (simp only: simp_thms)
qed

text \<open>
  C6. For every amount \<open>a\<close>, every currency code \<open>c\<close> and every rate table (whether or not
  \<open>c\<close> is registered in it), \<open>convert_currency a c c\<close> returns \<open>a\<close> itself: no error and no
  rounding.
\<close>

theorem convert_currency_identity:
  "convert_currency rates a c c = Inr a"
  by (simp add: convert_currency_def)

text \<open>
  C7. For every amount \<open>a\<close> and distinct codes such that the rate table has no entry for
  the source or no entry for the target, \<open>convert_currency\<close> returns \<open>a\<close> unchanged and
  raises nothing; in particular the unregistered code XXX converted to USD under the
  baseline table returns \<open>a\<close>.
\<close>

theorem convert_currency_unknown_rate:
  "(from_currency \<noteq> to_currency \<and> (rates from_currency = None \<or> rates to_currency = None)
      \<longrightarrow> convert_currency rates a from_currency to_currency = Inr a)
   \<and> EXCHANGE_RATES (u ''XXX'') = None
   \<and> convert_currency EXCHANGE_RATES a (u ''XXX'') (u ''USD'') = Inr a"
  by (auto simp add: convert_currency_def EXCHANGE_RATES_XXX XXX_neq_USD split: option.splits)

theorem convert_currency_unknown_rate_witness:
  "u ''XXX'' \<noteq> u ''USD''
   \<and> (EXCHANGE_RATES (u ''XXX'') = None \<or> EXCHANGE_RATES (u ''USD'') = None)
   \<and> convert_currency EXCHANGE_RATES (12345 / 100) (u ''XXX'') (u ''USD'') = Inr (12345 / 100)"
  using convert_currency_unknown_rate [of "u ''XXX''" "u ''USD''" EXCHANGE_RATES "12345 / 100"]
    XXX_neq_USD EXCHANGE_RATES_XXX
  by simp

subsection \<open>Searching tables\<close>

lemmas catalogue_eval =
  CURRENCY_PATTERNS_def CURRENCY_NAMES_def CURRENCY_SYMBOLS_def re_search_def lit_def u_def
  re_ieq_def unicode_tolower_def is_space_def contains_def startswith_def py_lower_def
  lower_cp_def py_dict_def dict_set_def

lemma find_first_match:
  assumes "first_match P table i"
  shows "\<exists>k. find (\<lambda>(k, v). P k) table = Some (k, snd (table ! i))"
proof -
  have "\<not> P (fst (table ! j))" if "j < i" for j
  proof -
    have "take i table ! j \<in> set (take i table)"
      using that assms by (intro nth_mem) (simp add: first_match_def)
    then show ?thesis
      using that assms by (simp add: first_match_def list_all_iff)
  qed
  then have "find (\<lambda>(k, v). P k) table = Some (table ! i)"
    using assms unfolding first_match_def find_Some_iff
    by (auto simp add: case_prod_unfold)
  then show ?thesis
    by (cases "table ! i") auto
qed

lemma find_no_match:
  assumes "no_match P table"
  shows "find (\<lambda>(k, v). P k) table = None"
  using assms unfolding no_match_def find_None_iff by (auto simp add: list_all_iff)

lemma list_ex_weaken: "list_ex P xs \<Longrightarrow> (\<And>x. P x \<Longrightarrow> Q x) \<Longrightarrow> list_ex Q xs"
  by (auto simp add: list_ex_iff)

lemma first_match_0: "P (fst (table ! 0)) \<Longrightarrow> table \<noteq> [] \<Longrightarrow> first_match P table 0"
  by (simp add: first_match_def)

subsection \<open>Detection: the tiers\<close>

lemma detect_empty: "detect_currency [] = (u ''USD'', 5 / 10)"
  by (simp add: detect_currency_def)

lemma detect_tier1:
  assumes "text \<noteq> []" and "first_match (\<lambda>p. re_search p text) CURRENCY_PATTERNS i"
  shows "detect_currency text = (snd (CURRENCY_PATTERNS ! i), 9 / 10)"
  using find_first_match [OF assms(2)] assms(1)
  by (auto simp add: detect_currency_def)

lemma detect_tier2:
  assumes "text \<noteq> []" and "no_match (\<lambda>p. re_search p text) CURRENCY_PATTERNS"
    and "first_match (\<lambda>n. contains n (py_lower text)) CURRENCY_NAMES i"
  shows "detect_currency text = (snd (CURRENCY_NAMES ! i), 85 / 100)"
  using find_first_match [OF assms(3)] find_no_match [OF assms(2)] assms(1)
  by (auto simp add: detect_currency_def)

lemma detect_tier3:
  assumes "text \<noteq> []" and "no_match (\<lambda>p. re_search p text) CURRENCY_PATTERNS"
    and "no_match (\<lambda>n. contains n (py_lower text)) CURRENCY_NAMES"
    and "first_match (\<lambda>s. contains s text) CURRENCY_SYMBOLS i"
  shows "detect_currency text = (snd (CURRENCY_SYMBOLS ! i), 88 / 100)"
  using find_first_match [OF assms(4)] find_no_match [OF assms(2)] find_no_match [OF assms(3)]
    assms(1)
  by (auto simp add: detect_currency_def)

lemma detect_tier4:
  assumes "no_match (\<lambda>p. re_search p text) CURRENCY_PATTERNS"
    and "no_match (\<lambda>n. contains n (py_lower text)) CURRENCY_NAMES"
    and "no_match (\<lambda>s. contains s text) CURRENCY_SYMBOLS"
  shows "detect_currency text = (u ''USD'', 5 / 10)"
  using find_no_match [OF assms(1)] find_no_match [OF assms(2)] find_no_match [OF assms(3)]
  by (auto simp add: detect_currency_def)

lemma dollar_matches_usd_pattern:
  assumes "dollar_not_before_space text"
  shows "re_search (fst (CURRENCY_PATTERNS ! 0)) text"
proof -
  have step: "list_ex (\<lambda>branch. match_here branch t) (fst (CURRENCY_PATTERNS ! 0))"
    if "case t of [] \<Rightarrow> False
          | c # rest \<Rightarrow> c = 0x24 \<and> (case rest of [] \<Rightarrow> True | d # ds \<Rightarrow> \<not> is_space d)" for t
    using that
    by (auto simp add: CURRENCY_PATTERNS_def lit_def re_ieq_def unicode_tolower_def
        split: list.splits)
  show ?thesis
    using assms unfolding dollar_not_before_space_def re_search_def
    by (rule list_ex_weaken) (rule step)
qed

lemma dollar_nonempty: "dollar_not_before_space text \<Longrightarrow> text \<noteq> []"
  by (auto simp add: dollar_not_before_space_def)

lemma first_pattern_usd: "snd (CURRENCY_PATTERNS ! 0) = u ''USD''"
  by (simp add: CURRENCY_PATTERNS_def)

lemma detect_dollar:
  assumes "dollar_not_before_space text"
  shows "detect_currency text = (u ''USD'', 9 / 10)"
proof -
  have "first_match (\<lambda>p. re_search p text) CURRENCY_PATTERNS 0"
    using dollar_matches_usd_pattern [OF assms]
    by (intro first_match_0) (simp_all add: CURRENCY_PATTERNS_def)
  from detect_tier1 [OF dollar_nonempty [OF assms] this] show ?thesis
    by (simp add: first_pattern_usd)
qed

subsection \<open>Detection: the claim\<close>

text \<open>
  C4, as stated, fails in its example: a text may hold a dollar sign and the word Euro and
  still be detected as EUR, because the USD pattern takes a dollar sign only when no
  whitespace follows it.
\<close>

theorem detect_currency_dollar_euro_counterexample:
  "contains (u ''$'') (u ''$ 5 Euro'')
   \<and> contains (u ''Euro'') (u ''$ 5 Euro'')
   \<and> detect_currency (u ''$ 5 Euro'') = (u ''EUR'', 9 / 10)
   \<and> detect_currency (u ''$ 5 Euro'') \<noteq> (u ''USD'', 9 / 10)"
  by (simp add: detect_currency_def catalogue_eval)

text \<open>
  C4, amended. The empty text gives (USD, 0.5). For a text that is not empty: if entry
  \<open>i\<close> of the pattern list is the first whose pattern matches somewhere in the text
  (ignoring case), the result is that entry's code with confidence 0.9; if no pattern
  matches and entry \<open>i\<close> of the name table is the first whose name is a substring of the
  lower-cased text, the result is that entry's code with confidence 0.85; if neither a
  pattern nor a name matches and entry \<open>i\<close> of the symbol table is the first whose symbol
  occurs in the text, the result is that entry's code with confidence 0.88; if nothing
  matches, the result is (USD, 0.5). In particular a text that holds the word Euro and a
  dollar sign that is not followed by whitespace is detected as USD with confidence 0.9.
\<close>

theorem detect_currency_cascade:
  "detect_currency [] = (u ''USD'', 5 / 10)
   \<and> (text \<noteq> [] \<longrightarrow>
        (\<forall>i. first_match (\<lambda>p. re_search p text) CURRENCY_PATTERNS i
              \<longrightarrow> detect_currency text = (snd (CURRENCY_PATTERNS ! i), 9 / 10))
      \<and> (no_match (\<lambda>p. re_search p text) CURRENCY_PATTERNS \<longrightarrow>
           (\<forall>i. first_match (\<lambda>n. contains n (py_lower text)) CURRENCY_NAMES i
                 \<longrightarrow> detect_currency text = (snd (CURRENCY_NAMES ! i), 85 / 100))
         \<and> (no_match (\<lambda>n. contains n (py_lower text)) CURRENCY_NAMES \<longrightarrow>
              (\<forall>i. first_match (\<lambda>s. contains s text) CURRENCY_SYMBOLS i
                    \<longrightarrow> detect_currency text = (snd (CURRENCY_SYMBOLS ! i), 88 / 100))
            \<and> (no_match (\<lambda>s. contains s text) CURRENCY_SYMBOLS
                 \<longrightarrow> detect_currency text = (u ''USD'', 5 / 10)))))
   \<and> (dollar_not_before_space text \<and> contains (u ''Euro'') text
        \<longrightarrow> detect_currency text = (u ''USD'', 9 / 10))"
  using detect_empty detect_tier1 [of "text"] detect_tier2 [of "text"] detect_tier3 [of "text"]
    detect_tier4 [of "text"] detect_dollar [of "text"]
  by blast

theorem detect_currency_cascade_witness:
  "u ''$5 Euro'' \<noteq> []
   \<and> first_match (\<lambda>p. re_search p (u ''$5 Euro'')) CURRENCY_PATTERNS 0
   \<and> dollar_not_before_space (u ''$5 Euro'')
   \<and> contains (u ''Euro'') (u ''$5 Euro'')
   \<and> detect_currency (u ''$5 Euro'') = (u ''USD'', 9 / 10)
   \<and> u ''5 Dollar'' \<noteq> []
   \<and> no_match (\<lambda>p. re_search p (u ''5 Dollar'')) CURRENCY_PATTERNS
   \<and> first_match (\<lambda>n. contains n (py_lower (u ''5 Dollar''))) CURRENCY_NAMES 0
   \<and> detect_currency (u ''5 Dollar'') = (u ''USD'', 85 / 100)
   \<and> u ''5 kr'' \<noteq> []
   \<and> no_match (\<lambda>p. re_search p (u ''5 kr'')) CURRENCY_PATTERNS
   \<and> no_match (\<lambda>n. contains n (py_lower (u ''5 kr''))) CURRENCY_NAMES
   \<and> first_match (\<lambda>s. contains s (u ''5 kr'')) CURRENCY_SYMBOLS 8
   \<and> detect_currency (u ''5 kr'') = (u ''NOK'', 88 / 100)
   \<and> u ''Acme'' \<noteq> []
   \<and> no_match (\<lambda>p. re_search p (u ''Acme'')) CURRENCY_PATTERNS
   \<and> no_match (\<lambda>n. contains n (py_lower (u ''Acme''))) CURRENCY_NAMES
   \<and> no_match (\<lambda>s. contains s (u ''Acme'')) CURRENCY_SYMBOLS
   \<and> detect_currency (u ''Acme'') = (u ''USD'', 5 / 10)"
proof -
  have a0: "u ''$5 Euro'' \<noteq> []" by (simp add: u_def)
  have a1: "first_match (\<lambda>p. re_search p (u ''$5 Euro'')) CURRENCY_PATTERNS 0"
    by (simp add: first_match_def catalogue_eval)
  have a2: "dollar_not_before_space (u ''$5 Euro'')"
    by (simp add: dollar_not_before_space_def u_def is_space_def)
  have a3: "contains (u ''Euro'') (u ''$5 Euro'')"
    by (simp add: catalogue_eval)
  have b0: "u ''5 Dollar'' \<noteq> []" by (simp add: u_def)
  have b1: "no_match (\<lambda>p. re_search p (u ''5 Dollar'')) CURRENCY_PATTERNS"
    by (simp add: no_match_def catalogue_eval)
  have b2: "first_match (\<lambda>n. contains n (py_lower (u ''5 Dollar''))) CURRENCY_NAMES 0"
    by (simp add: first_match_def catalogue_eval)
  have c0: "u ''5 kr'' \<noteq> []" by (simp add: u_def)
  have c1: "no_match (\<lambda>p. re_search p (u ''5 kr'')) CURRENCY_PATTERNS"
    by (simp add: no_match_def catalogue_eval)
  have c2: "no_match (\<lambda>n. contains n (py_lower (u ''5 kr''))) CURRENCY_NAMES"
    by (simp add: no_match_def catalogue_eval)
  have c3: "first_match (\<lambda>s. contains s (u ''5 kr'')) CURRENCY_SYMBOLS 8"
    by (simp add: first_match_def catalogue_eval)
  have d0: "u ''Acme'' \<noteq> []" by (simp add: u_def)
  have d1: "no_match (\<lambda>p. re_search p (u ''Acme'')) CURRENCY_PATTERNS"
    by (simp add: no_match_def catalogue_eval)
  have d2: "no_match (\<lambda>n. contains n (py_lower (u ''Acme''))) CURRENCY_NAMES"
    by (simp add: no_match_def catalogue_eval)
  have d3: "no_match (\<lambda>s. contains s (u ''Acme'')) CURRENCY_SYMBOLS"
    by (simp add: no_match_def catalogue_eval)
  have ra: "detect_currency (u ''$5 Euro'') = (u ''USD'', 9 / 10)"
    using detect_currency_cascade [of "u ''$5 Euro''"] a2 a3 by blast
  have rb: "detect_currency (u ''5 Dollar'') = (snd (CURRENCY_NAMES ! 0), 85 / 100)"
    using detect_currency_cascade [of "u ''5 Dollar''"] b0 b1 b2 by blast
  have rc: "detect_currency (u ''5 kr'') = (snd (CURRENCY_SYMBOLS ! 8), 88 / 100)"
    using detect_currency_cascade [of "u ''5 kr''"] c0 c1 c2 c3 by blast
  have rd: "detect_currency (u ''Acme'') = (u ''USD'', 5 / 10)"
    using detect_currency_cascade [of "u ''Acme''"] d0 d1 d2 d3 by blast
  have n0: "snd (CURRENCY_NAMES ! 0) = u ''USD''"
    by (simp add: CURRENCY_NAMES_def py_dict_def dict_set_def u_def)
  have s8: "snd (CURRENCY_SYMBOLS ! 8) = u ''NOK''"
    by (simp add: CURRENCY_SYMBOLS_def py_dict_def dict_set_def u_def)
  show ?thesis
    using a0 a1 a2 a3 ra b0 b1 b2 rb [unfolded n0] c0 c1 c2 c3 rc [unfolded s8] d0 d1 d2 d3 rd
    by blast
qed

subsection \<open>Detected codes are registered\<close>

lemma patterns_registered: "\<forall>e\<in>set CURRENCY_PATTERNS. snd e \<in> dom EXCHANGE_RATES"
  by (simp add: CURRENCY_PATTERNS_def EXCHANGE_RATES_def u_def dom_map_of_conv_image_fst)

lemma names_registered: "\<forall>e\<in>set CURRENCY_NAMES. snd e \<in> dom EXCHANGE_RATES"
  by (simp add: CURRENCY_NAMES_def py_dict_def dict_set_def EXCHANGE_RATES_def u_def
      dom_map_of_conv_image_fst)

lemma symbols_registered: "\<forall>e\<in>set CURRENCY_SYMBOLS. snd e \<in> dom EXCHANGE_RATES"
  by (simp add: CURRENCY_SYMBOLS_def py_dict_def dict_set_def EXCHANGE_RATES_def u_def
      dom_map_of_conv_image_fst)

lemma USD_registered: "u ''USD'' \<in> dom EXCHANGE_RATES"
  by (simp add: EXCHANGE_RATES_USD domI)

lemma find_Some_mem: "find P xs = Some x \<Longrightarrow> x \<in> set xs"
  by (auto simp add: find_Some_iff)

lemma detect_code_registered: "fst (detect_currency t) \<in> dom EXCHANGE_RATES"
proof -
  have p: "c \<in> dom EXCHANGE_RATES" if "find P CURRENCY_PATTERNS = Some (k, c)" for P k c
    using find_Some_mem [OF that] patterns_registered by force
  have n: "c \<in> dom EXCHANGE_RATES" if "find P CURRENCY_NAMES = Some (k, c)" for P k c
    using find_Some_mem [OF that] names_registered by force
  have s: "c \<in> dom EXCHANGE_RATES" if "find P CURRENCY_SYMBOLS = Some (k, c)" for P k c
    using find_Some_mem [OF that] symbols_registered by force
  show ?thesis
    unfolding detect_currency_def Let_def
    using p n s USD_registered
    by (auto split: option.splits prod.splits)
qed

lemma detect_confidence: "snd (detect_currency t) \<in> {5 / 10, 85 / 100, 88 / 100, 9 / 10}"
  unfolding detect_currency_def Let_def
  by (auto split: option.splits prod.splits)

lemma convert_to_usd_registered:
  assumes "EXCHANGE_RATES c = Some r"
  shows "convert_currency EXCHANGE_RATES a c (u ''USD'') =
           Inr (if c = u ''USD'' then a else py_round (fmul (fdiv a r) 1) 2)"
  using assms EXCHANGE_RATES_nonzero [OF assms]
  by (simp add: convert_currency_def py_div_def EXCHANGE_RATES_USD)

lemma convert_to_usd_total: "\<exists>v. convert_currency EXCHANGE_RATES a c (u ''USD'') = Inr v"
proof (cases "EXCHANGE_RATES c")
  case None
  then show ?thesis by (simp add: convert_currency_def)
next
  case (Some r)
  then show ?thesis by (simp add: convert_to_usd_registered)
qed

subsection \<open>Normalisation under the baseline table\<close>

lemma convert_to_usd_baseline:
  "convert_currency EXCHANGE_RATES a c (u ''USD'') = Inr (baseline_usd_value a c)"
proof (cases "EXCHANGE_RATES c")
  case None
  then show ?thesis by (simp add: convert_currency_def baseline_usd_value_def)
next
  case (Some r)
  then show ?thesis by (simp add: convert_to_usd_registered baseline_usd_value_def)
qed

lemma normalize_item_baseline:
  "normalize_item EXCHANGE_RATES c item = Inr (enrich_item c item)"
  by (simp add: normalize_item_def enrich_item_def convert_to_usd_baseline split: option.splits)

lemma normalize_items_baseline:
  "normalize_items EXCHANGE_RATES c items = Inr (map (enrich_item c) items)"
  by (induction items) (simp_all add: normalize_item_baseline)

lemma normalize_currency_data_baseline:
  "normalize_currency_data EXCHANGE_RATES d =
     Inr (d
       \<lparr>line_items := map_option (map (enrich_item (fst (detect_currency (invoice_text d)))))
          (line_items d),
        currency := Some (fst (detect_currency (invoice_text d))),
        currency_confidence := Some (snd (detect_currency (invoice_text d))),
        currency_symbol := Some (get_currency_symbol (fst (detect_currency (invoice_text d)))),
        total_amount_formatted :=
          (case total_amount d of
             None \<Rightarrow> total_amount_formatted d
           | Some a \<Rightarrow> Some (format_currency a (fst (detect_currency (invoice_text d))) True)),
        total_amount_usd :=
          (case total_amount d of
             None \<Rightarrow> total_amount_usd d
           | Some a \<Rightarrow> Some (baseline_usd_value a (fst (detect_currency (invoice_text d)))))\<rparr>)"
  by (cases "detect_currency (invoice_text d)")
    (simp add: normalize_currency_data_def invoice_text_def Let_def convert_to_usd_baseline
      normalize_items_baseline split: option.splits)

subsection \<open>Evaluating the sample data\<close>

lemmas sample_eval = sample_invoice_def sample_item_def invoice_text_def get_default_def

lemma detect_sample_usd:
  "detect_currency (invoice_text (sample_invoice (Some (u ''Acme'')) a items code)) = (u ''USD'', 5 / 10)"
  by (simp add: sample_eval detect_currency_def catalogue_eval)

lemma detect_sample_eur:
  "detect_currency (invoice_text (sample_invoice (Some (u ''Acme GmbH EUR'')) a items code)) = (u ''EUR'', 9 / 10)"
  by (simp add: sample_eval detect_currency_def catalogue_eval)

lemma detect_sample_none:
  "detect_currency (invoice_text (sample_invoice None a items code)) = (u ''USD'', 5 / 10)"
  by (simp add: sample_eval detect_currency_def catalogue_eval)

lemma symbol_usd: "get_currency_symbol (u ''USD'') = u ''$''"
  by (simp add: get_currency_symbol_def symbols_def py_dict_def dict_set_def u_def)

lemma symbol_eur: "get_currency_symbol (u ''EUR'') = [0x20AC]"
  by (simp add: get_currency_symbol_def symbols_def py_dict_def dict_set_def u_def)

lemma format_zero: "format_fixed2 False 0 = u ''0.00''"
  by (simp add: format_fixed2_def round_half_even_def u_def)

lemma format_100: "format_fixed2 False 100 = u ''100.00''"
proof -
  have "round_half_even (100 * 100) = 10000"
    using round_half_even_int [of 10000] by simp
  then show ?thesis
    by (simp add: format_fixed2_def u_def)
qed

lemma usd_value_100_eur: "baseline_usd_value 100 (u ''EUR'') = double_of (1087 / 10)"
  by (simp add: baseline_usd_value_def EXCHANGE_RATES_EUR EUR_neq_USD pivot_100_eur)

subsection \<open>Flagging: the claim\<close>

lemma strip_invoice: "py_strip (u ''Invoice'') \<noteq> []"
  by (simp add: py_strip_def u_def is_space_def)

lemma normalize_sample_usd:
  "normalize_currency_data EXCHANGE_RATES (sample_invoice (Some (u ''Acme'')) (Some 6000) None None) =
   Inr ((sample_invoice (Some (u ''Acme'')) (Some 6000) None None)
     \<lparr>currency := Some (u ''USD''), currency_confidence := Some (5 / 10),
      currency_symbol := Some (u ''$''),
      total_amount_formatted := Some (format_currency 6000 (u ''USD'') True),
      total_amount_usd := Some 6000\<rparr>)"
proof -
  have t: "total_amount (sample_invoice (Some (u ''Acme'')) (Some 6000) None None) = Some 6000"
    and l: "line_items (sample_invoice (Some (u ''Acme'')) (Some 6000) None None) = None"
    by (simp_all add: sample_invoice_def)
  have v: "baseline_usd_value 6000 (u ''USD'') = 6000"
    by (simp add: baseline_usd_value_def EXCHANGE_RATES_USD)
  show ?thesis
    unfolding normalize_currency_data_baseline detect_sample_usd t l
    by (simp add: symbol_usd v sample_invoice_def)
qed

lemma process_sample:
  "process_single_invoice EXCHANGE_RATES (\<lambda>p. True) (\<lambda>p. Inr (u ''Invoice''))
     (\<lambda>t. Inr (sample_invoice (Some (u ''Acme'')) (Some 6000) None None)) (u ''a.pdf'') =
   Inr ((sample_invoice (Some (u ''Acme'')) (Some 6000) None None)
     \<lparr>currency := Some (u ''USD''), currency_confidence := Some (5 / 10),
      currency_symbol := Some (u ''$''),
      total_amount_formatted := Some (format_currency 6000 (u ''USD'') True),
      total_amount_usd := Some 6000, flagged := Some True\<rparr>)"
  by (simp add: process_single_invoice_def strip_invoice normalize_sample_usd
      FLAGGED_AMOUNT_THRESHOLD_def get_default_def)

text \<open>
  C1. Every invoice record that \<open>process_single_invoice\<close> returns has \<open>flagged\<close> set, and
  it is true exactly when the USD-equivalent total (the value of \<open>total_amount_usd\<close>, else
  the raw \<open>total_amount\<close> when that is absent, else 0) is strictly greater than 5000.
\<close>

theorem process_single_invoice_flagged:
  assumes "process_single_invoice rates validate_pdf extract_text_from_pdf extract_invoice_data
             pdf_path = Inr r"
  shows "flagged r =
           Some (5000 < (case total_amount_usd r of
                           Some usd \<Rightarrow> usd
                         | None \<Rightarrow> (case total_amount r of Some t \<Rightarrow> t | None \<Rightarrow> 0)))"
  using assms
  by (auto simp add: process_single_invoice_def FLAGGED_AMOUNT_THRESHOLD_def get_default_def
      Let_def split: if_splits sum.splits option.splits)

theorem process_single_invoice_flagged_witness:
  "process_single_invoice EXCHANGE_RATES (\<lambda>p. True) (\<lambda>p. Inr (u ''Invoice''))
     (\<lambda>t. Inr (sample_invoice (Some (u ''Acme'')) (Some 6000) None None)) (u ''a.pdf'') =
   Inr ((sample_invoice (Some (u ''Acme'')) (Some 6000) None None)
     \<lparr>currency := Some (u ''USD''), currency_confidence := Some (5 / 10),
      currency_symbol := Some (u ''$''),
      total_amount_formatted := Some (format_currency 6000 (u ''USD'') True),
      total_amount_usd := Some 6000, flagged := Some True\<rparr>)
   \<and> flagged ((sample_invoice (Some (u ''Acme'')) (Some 6000) None None)
     \<lparr>currency := Some (u ''USD''), currency_confidence := Some (5 / 10),
      currency_symbol := Some (u ''$''),
      total_amount_formatted := Some (format_currency 6000 (u ''USD'') True),
      total_amount_usd := Some 6000, flagged := Some True\<rparr>) = Some ((5000::rat) < 6000)"
  using process_single_invoice_flagged [OF process_sample] process_sample
  by simp

subsection \<open>Normalisation: the frame\<close>

lemma enrich_item_frame:
  "description (enrich_item c item) = description item
   \<and> cost (enrich_item c item) = cost item
   \<and> line_item.more (enrich_item c item) = line_item.more item
   \<and> (cost_formatted item \<noteq> None \<longrightarrow> cost_formatted (enrich_item c item) \<noteq> None)
   \<and> (cost_usd item \<noteq> None \<longrightarrow> cost_usd (enrich_item c item) \<noteq> None)
   \<and> (cost item = None \<longrightarrow> enrich_item c item = item)
   \<and> (cost item \<noteq> None \<longrightarrow>
         cost_formatted (enrich_item c item) \<noteq> None \<and> cost_usd (enrich_item c item) \<noteq> None)"
  by (simp add: enrich_item_def split: option.splits)

lemma list_all2_map_right: "(\<And>x. P x (f x)) \<Longrightarrow> list_all2 P xs (map f xs)"
  by (induction xs) simp_all

lemma normalize_sample_preset:
  "normalize_currency_data EXCHANGE_RATES
     (sample_invoice (Some (u ''Acme'')) None None (Some (u ''EUR''))) =
   Inr ((sample_invoice (Some (u ''Acme'')) None None (Some (u ''EUR'')))
     \<lparr>currency := Some (u ''USD''), currency_confidence := Some (5 / 10),
      currency_symbol := Some (u ''$'')\<rparr>)"
proof -
  have t: "total_amount (sample_invoice (Some (u ''Acme'')) None None (Some (u ''EUR''))) = None"
    and l: "line_items (sample_invoice (Some (u ''Acme'')) None None (Some (u ''EUR''))) = None"
    by (simp_all add: sample_invoice_def)
  show ?thesis
    unfolding normalize_currency_data_baseline detect_sample_usd t l
    by (simp add: symbol_usd sample_invoice_def)
qed

lemma format_currency_zero_usd: "format_currency 0 (u ''USD'') True = u ''$0.00''"
  by (simp add: format_currency_def format_zero symbol_usd) (simp add: u_def)

lemma format_currency_100_usd: "format_currency 100 (u ''USD'') True = u ''$100.00''"
  by (simp add: format_currency_def format_100 symbol_usd) (simp add: u_def)

lemma normalize_sample_items:
  "normalize_currency_data EXCHANGE_RATES
     (sample_invoice (Some (u ''Acme'')) (Some 100)
        (Some [sample_item (Some 0), sample_item None]) None) =
   Inr ((sample_invoice (Some (u ''Acme'')) (Some 100)
        (Some [sample_item (Some 0), sample_item None]) None)
     \<lparr>line_items := Some [(sample_item (Some 0))
          \<lparr>cost_formatted := Some (u ''$0.00''), cost_usd := Some 0\<rparr>, sample_item None],
      currency := Some (u ''USD''), currency_confidence := Some (5 / 10),
      currency_symbol := Some (u ''$''),
      total_amount_formatted := Some (u ''$100.00''),
      total_amount_usd := Some 100\<rparr>)"
proof -
  have t: "total_amount (sample_invoice (Some (u ''Acme'')) (Some 100)
        (Some [sample_item (Some 0), sample_item None]) None) = Some 100"
    and l: "line_items (sample_invoice (Some (u ''Acme'')) (Some 100)
        (Some [sample_item (Some 0), sample_item None]) None)
        = Some [sample_item (Some 0), sample_item None]"
    by (simp_all add: sample_invoice_def)
  have v: "baseline_usd_value a (u ''USD'') = a" for a
    by (simp add: baseline_usd_value_def EXCHANGE_RATES_USD)
  have e0: "enrich_item (u ''USD'') (sample_item (Some 0)) =
      (sample_item (Some 0))\<lparr>cost_formatted := Some (u ''$0.00''), cost_usd := Some 0\<rparr>"
    by (simp add: enrich_item_def sample_item_def v format_currency_zero_usd)
  have e1: "enrich_item (u ''USD'') (sample_item None) = sample_item None"
    by (simp add: enrich_item_def sample_item_def)
  show ?thesis
    unfolding normalize_currency_data_baseline detect_sample_usd t l
    by (simp add: symbol_usd v e0 e1 format_currency_100_usd)
qed

text \<open>
  C9, as stated, fails for the derived keys: an invoice that already carries
  \<open>currency = EUR\<close> (a key the extraction step can pass through) and whose text names no
  currency comes back with \<open>currency = USD\<close>.
\<close>

theorem normalize_currency_data_overwrites_counterexample:
  "currency (sample_invoice (Some (u ''Acme'')) None None (Some (u ''EUR''))) = Some (u ''EUR'')
   \<and> normalize_currency_data EXCHANGE_RATES
        (sample_invoice (Some (u ''Acme'')) None None (Some (u ''EUR''))) =
      Inr ((sample_invoice (Some (u ''Acme'')) None None (Some (u ''EUR'')))
        \<lparr>currency := Some (u ''USD''), currency_confidence := Some (5 / 10),
         currency_symbol := Some (u ''$'')\<rparr>)
   \<and> currency ((sample_invoice (Some (u ''Acme'')) None None (Some (u ''EUR'')))
        \<lparr>currency := Some (u ''USD''), currency_confidence := Some (5 / 10),
         currency_symbol := Some (u ''$'')\<rparr>) \<noteq> Some (u ''EUR'')"
  using normalize_sample_preset
  by (simp add: sample_invoice_def u_def)

text \<open>
  C9, amended. Under the baseline rate table \<open>normalize_currency_data\<close> raises nothing and
  returns the record enriched. Every key present before the call is present afterwards.
  Every key other than the derived keys \<open>currency\<close>, \<open>currency_confidence\<close>,
  \<open>currency_symbol\<close>, \<open>total_amount_formatted\<close> and \<open>total_amount_usd\<close> keeps its value; the
  first three derived keys are always set, the last two are set when \<open>total_amount\<close> is
  present and left as they were when it is absent. The list of line items keeps its length
  and order; each item keeps its description, its cost and its other keys; an item with a
  cost (a cost of 0.00 included) has \<open>cost_formatted\<close> and \<open>cost_usd\<close> afterwards, an item
  without a cost is unchanged; absent \<open>line_items\<close> stay absent.
\<close>

theorem normalize_currency_data_frame:
  "\<exists>r. normalize_currency_data EXCHANGE_RATES d = Inr r
     \<and> vendor_name r = vendor_name d \<and> invoice_number r = invoice_number d
     \<and> invoice_date r = invoice_date d \<and> total_amount r = total_amount d
     \<and> flagged r = flagged d \<and> invoice.more r = invoice.more d
     \<and> currency r \<noteq> None \<and> currency_confidence r \<noteq> None \<and> currency_symbol r \<noteq> None
     \<and> (total_amount_formatted d \<noteq> None \<longrightarrow> total_amount_formatted r \<noteq> None)
     \<and> (total_amount_usd d \<noteq> None \<longrightarrow> total_amount_usd r \<noteq> None)
     \<and> (total_amount d = None \<longrightarrow>
           total_amount_formatted r = total_amount_formatted d
           \<and> total_amount_usd r = total_amount_usd d)
     \<and> (total_amount d \<noteq> None \<longrightarrow>
           total_amount_formatted r \<noteq> None \<and> total_amount_usd r \<noteq> None)
     \<and> (line_items d = None \<longrightarrow> line_items r = None)
     \<and> (\<forall>items. line_items d = Some items \<longrightarrow>
           (\<exists>items'. line_items r = Some items'
              \<and> list_all2
                   (\<lambda>item item'.
                      description item' = description item
                      \<and> cost item' = cost item
                      \<and> line_item.more item' = line_item.more item
                      \<and> (cost_formatted item \<noteq> None \<longrightarrow> cost_formatted item' \<noteq> None)
                      \<and> (cost_usd item \<noteq> None \<longrightarrow> cost_usd item' \<noteq> None)
                      \<and> (cost item = None \<longrightarrow> item' = item)
                      \<and> (cost item \<noteq> None \<longrightarrow>
                            cost_formatted item' \<noteq> None \<and> cost_usd item' \<noteq> None))
                   items items'))"
proof -
  have items: "list_all2
       (\<lambda>item item'.
          description item' = description item
          \<and> cost item' = cost item
          \<and> line_item.more item' = line_item.more item
          \<and> (cost_formatted item \<noteq> None \<longrightarrow> cost_formatted item' \<noteq> None)
          \<and> (cost_usd item \<noteq> None \<longrightarrow> cost_usd item' \<noteq> None)
          \<and> (cost item = None \<longrightarrow> item' = item)
          \<and> (cost item \<noteq> None \<longrightarrow>
                cost_formatted item' \<noteq> None \<and> cost_usd item' \<noteq> None))
       items (map (enrich_item c) items)" for c and items :: "'a line_item_scheme list"
    by (rule list_all2_map_right) (rule enrich_item_frame)
  show ?thesis
    unfolding normalize_currency_data_baseline
    using items
    by (auto split: option.splits)
qed

theorem normalize_currency_data_frame_witness:
  "normalize_currency_data EXCHANGE_RATES
     (sample_invoice (Some (u ''Acme'')) (Some 100)
        (Some [sample_item (Some 0), sample_item None]) None) =
   Inr ((sample_invoice (Some (u ''Acme'')) (Some 100)
        (Some [sample_item (Some 0), sample_item None]) None)
     \<lparr>line_items := Some [(sample_item (Some 0))
          \<lparr>cost_formatted := Some (u ''$0.00''), cost_usd := Some 0\<rparr>, sample_item None],
      currency := Some (u ''USD''), currency_confidence := Some (5 / 10),
      currency_symbol := Some (u ''$''),
      total_amount_formatted := Some (u ''$100.00''),
      total_amount_usd := Some 100\<rparr>)
   \<and> total_amount (sample_invoice (Some (u ''Acme'')) (Some 100)
        (Some [sample_item (Some 0), sample_item None]) None) \<noteq> None
   \<and> line_items (sample_invoice (Some (u ''Acme'')) (Some 100)
        (Some [sample_item (Some 0), sample_item None]) None)
      = Some [sample_item (Some 0), sample_item None]
   \<and> cost (sample_item (Some 0)) \<noteq> None
   \<and> cost (sample_item None) = None
   \<and> normalize_currency_data EXCHANGE_RATES
        (sample_invoice (Some (u ''Acme'')) None None (Some (u ''EUR''))) =
      Inr ((sample_invoice (Some (u ''Acme'')) None None (Some (u ''EUR'')))
        \<lparr>currency := Some (u ''USD''), currency_confidence := Some (5 / 10),
         currency_symbol := Some (u ''$'')\<rparr>)
   \<and> total_amount (sample_invoice (Some (u ''Acme'')) None None (Some (u ''EUR''))) = None
   \<and> line_items (sample_invoice (Some (u ''Acme'')) None None (Some (u ''EUR''))) = None"
  using normalize_currency_data_frame
      [of "sample_invoice (Some (u ''Acme'')) (Some 100)
            (Some [sample_item (Some 0), sample_item None]) None"]
    normalize_currency_data_frame
      [of "sample_invoice (Some (u ''Acme'')) None None (Some (u ''EUR''))"]
    normalize_sample_items normalize_sample_preset
  by (simp add: sample_invoice_def sample_item_def)

subsection \<open>Detection and normalisation: registered codes\<close>

lemma usd_value_0_eur: "baseline_usd_value 0 (u ''EUR'') = 0"
  by (simp add: baseline_usd_value_def EXCHANGE_RATES_EUR EUR_neq_USD pivot_0)

lemma format_currency_100_eur: "format_currency 100 (u ''EUR'') True = [0x20AC] @ u ''100.00''"
  by (simp add: format_currency_def format_100 symbol_eur)

lemma format_currency_zero_eur: "format_currency 0 (u ''EUR'') True = [0x20AC] @ u ''0.00''"
  by (simp add: format_currency_def format_zero symbol_eur)

lemma normalize_sample_eur:
  "normalize_currency_data EXCHANGE_RATES
     (sample_invoice (Some (u ''Acme GmbH EUR'')) (Some 100) (Some [sample_item (Some 0)]) None) =
   Inr ((sample_invoice (Some (u ''Acme GmbH EUR'')) (Some 100)
        (Some [sample_item (Some 0)]) None)
     \<lparr>line_items := Some [(sample_item (Some 0))
          \<lparr>cost_formatted := Some ([0x20AC] @ u ''0.00''), cost_usd := Some 0\<rparr>],
      currency := Some (u ''EUR''), currency_confidence := Some (9 / 10),
      currency_symbol := Some [0x20AC],
      total_amount_formatted := Some ([0x20AC] @ u ''100.00''),
      total_amount_usd := Some (double_of (1087 / 10))\<rparr>)"
proof -
  have t: "total_amount (sample_invoice (Some (u ''Acme GmbH EUR'')) (Some 100)
        (Some [sample_item (Some 0)]) None) = Some 100"
    and l: "line_items (sample_invoice (Some (u ''Acme GmbH EUR'')) (Some 100)
        (Some [sample_item (Some 0)]) None) = Some [sample_item (Some 0)]"
    by (simp_all add: sample_invoice_def)
  have e0: "enrich_item (u ''EUR'') (sample_item (Some 0)) =
      (sample_item (Some 0))\<lparr>cost_formatted := Some ([0x20AC] @ u ''0.00''), cost_usd := Some 0\<rparr>"
    by (simp add: enrich_item_def sample_item_def usd_value_0_eur format_currency_zero_eur)
  show ?thesis
    unfolding normalize_currency_data_baseline detect_sample_eur t l
    by (simp add: symbol_eur usd_value_100_eur e0 format_currency_100_eur)
qed

text \<open>
  C10. For every text, \<open>detect_currency\<close> returns a confidence in \<open>{0.5, 0.85, 0.88, 0.9}\<close>
  and a code that has a rate in the baseline table, and USD has a rate there too. Hence,
  for every invoice, normalisation under the baseline table stores a detected currency
  for which the guard of the unknown-rate fallback of \<open>convert_currency\<close> (no rate for the
  source or no rate for the target) is false: \<open>total_amount_usd\<close> and every \<open>cost_usd\<close> are
  what \<open>convert_currency\<close> returns for a source and a target that both have a rate.
\<close>

theorem detect_currency_registered:
  "snd (detect_currency text) \<in> {5 / 10, 85 / 100, 88 / 100, 9 / 10}
   \<and> fst (detect_currency text) \<in> dom EXCHANGE_RATES
   \<and> u ''USD'' \<in> dom EXCHANGE_RATES
   \<and> (\<exists>r c.
         normalize_currency_data EXCHANGE_RATES d = Inr r
         \<and> currency r = Some c \<and> c \<in> dom EXCHANGE_RATES
         \<and> (\<forall>a. total_amount d = Some a \<longrightarrow>
               (\<exists>v. total_amount_usd r = Some v
                  \<and> convert_currency EXCHANGE_RATES a c (u ''USD'') = Inr v))
         \<and> (\<forall>items. line_items d = Some items \<longrightarrow>
               (\<exists>items'. line_items r = Some items'
                  \<and> list_all2
                       (\<lambda>item item'. \<forall>a. cost item = Some a \<longrightarrow>
                          (\<exists>v. cost_usd item' = Some v
                             \<and> convert_currency EXCHANGE_RATES a c (u ''USD'') = Inr v))
                       items items')))"
proof -
  let ?c = "fst (detect_currency (invoice_text d))"
  have items: "list_all2
       (\<lambda>item item'. \<forall>a. cost item = Some a \<longrightarrow>
          (\<exists>v. cost_usd item' = Some v
             \<and> convert_currency EXCHANGE_RATES a ?c (u ''USD'') = Inr v))
       items (map (enrich_item ?c) items)"
    for items :: "'a line_item_scheme list"
    by (rule list_all2_map_right) (simp add: enrich_item_def convert_to_usd_baseline)
  have norm: "\<exists>r c.
         normalize_currency_data EXCHANGE_RATES d = Inr r
         \<and> currency r = Some c \<and> c \<in> dom EXCHANGE_RATES
         \<and> (\<forall>a. total_amount d = Some a \<longrightarrow>
               (\<exists>v. total_amount_usd r = Some v
                  \<and> convert_currency EXCHANGE_RATES a c (u ''USD'') = Inr v))
         \<and> (\<forall>items. line_items d = Some items \<longrightarrow>
               (\<exists>items'. line_items r = Some items'
                  \<and> list_all2
                       (\<lambda>item item'. \<forall>a. cost item = Some a \<longrightarrow>
                          (\<exists>v. cost_usd item' = Some v
                             \<and> convert_currency EXCHANGE_RATES a c (u ''USD'') = Inr v))
                       items items'))"
    unfolding normalize_currency_data_baseline
    using items detect_code_registered [of "invoice_text d"]
    by (auto simp add: convert_to_usd_baseline)
  show ?thesis
    using detect_confidence [of "text"] detect_code_registered [of "text"] USD_registered norm
    by blast
qed

theorem detect_currency_registered_witness:
  "detect_currency (u ''Acme GmbH EUR'') = (u ''EUR'', 9 / 10)
   \<and> u ''EUR'' \<in> dom EXCHANGE_RATES
   \<and> normalize_currency_data EXCHANGE_RATES
       (sample_invoice (Some (u ''Acme GmbH EUR'')) (Some 100) (Some [sample_item (Some 0)]) None) =
     Inr ((sample_invoice (Some (u ''Acme GmbH EUR'')) (Some 100)
          (Some [sample_item (Some 0)]) None)
       \<lparr>line_items := Some [(sample_item (Some 0))
            \<lparr>cost_formatted := Some ([0x20AC] @ u ''0.00''), cost_usd := Some 0\<rparr>],
        currency := Some (u ''EUR''), currency_confidence := Some (9 / 10),
        currency_symbol := Some [0x20AC],
        total_amount_formatted := Some ([0x20AC] @ u ''100.00''),
        total_amount_usd := Some (double_of (1087 / 10))\<rparr>)
   \<and> total_amount (sample_invoice (Some (u ''Acme GmbH EUR'')) (Some 100)
        (Some [sample_item (Some 0)]) None) = Some 100
   \<and> line_items (sample_invoice (Some (u ''Acme GmbH EUR'')) (Some 100)
        (Some [sample_item (Some 0)]) None) = Some [sample_item (Some 0)]
   \<and> cost (sample_item (Some 0)) = Some 0
   \<and> convert_currency EXCHANGE_RATES 100 (u ''EUR'') (u ''USD'') = Inr (double_of (1087 / 10))
   \<and> convert_currency EXCHANGE_RATES 0 (u ''EUR'') (u ''USD'') = Inr 0"
proof -
  have det: "detect_currency (u ''Acme GmbH EUR'') = (u ''EUR'', 9 / 10)"
    by (simp add: detect_currency_def catalogue_eval)
  obtain r c where
    n: "normalize_currency_data EXCHANGE_RATES
          (sample_invoice (Some (u ''Acme GmbH EUR'')) (Some 100)
             (Some [sample_item (Some 0)]) None) = Inr r"
    and c: "currency r = Some c" and reg: "c \<in> dom EXCHANGE_RATES"
    and tot: "\<forall>a. total_amount (sample_invoice (Some (u ''Acme GmbH EUR'')) (Some 100)
             (Some [sample_item (Some 0)]) None) = Some a \<longrightarrow>
           (\<exists>v. total_amount_usd r = Some v
              \<and> convert_currency EXCHANGE_RATES a c (u ''USD'') = Inr v)"
    and its: "\<forall>items. line_items (sample_invoice (Some (u ''Acme GmbH EUR'')) (Some 100)
             (Some [sample_item (Some 0)]) None) = Some items \<longrightarrow>
           (\<exists>items'. line_items r = Some items'
              \<and> list_all2
                   (\<lambda>item item'. \<forall>a. cost item = Some a \<longrightarrow>
                      (\<exists>v. cost_usd item' = Some v
                         \<and> convert_currency EXCHANGE_RATES a c (u ''USD'') = Inr v))
                   items items')"
    using detect_currency_registered
      [of "u ''Acme GmbH EUR''" "sample_invoice (Some (u ''Acme GmbH EUR'')) (Some 100)
             (Some [sample_item (Some 0)]) None"]
    by blast
  have r: "r = (sample_invoice (Some (u ''Acme GmbH EUR'')) (Some 100)
          (Some [sample_item (Some 0)]) None)
       \<lparr>line_items := Some [(sample_item (Some 0))
            \<lparr>cost_formatted := Some ([0x20AC] @ u ''0.00''), cost_usd := Some 0\<rparr>],
        currency := Some (u ''EUR''), currency_confidence := Some (9 / 10),
        currency_symbol := Some [0x20AC],
        total_amount_formatted := Some ([0x20AC] @ u ''100.00''),
        total_amount_usd := Some (double_of (1087 / 10))\<rparr>"
    using n normalize_sample_eur by simp
  have c_eur: "c = u ''EUR''"
    using c r by simp
  have v100: "convert_currency EXCHANGE_RATES 100 (u ''EUR'') (u ''USD'') =
      Inr (double_of (1087 / 10))"
    using tot r c_eur by (auto simp add: sample_invoice_def)
  have v0: "convert_currency EXCHANGE_RATES 0 (u ''EUR'') (u ''USD'') = Inr 0"
    using its r c_eur
    by (auto simp add: sample_invoice_def sample_item_def list_all2_Cons1)
  show ?thesis
    using det reg c_eur normalize_sample_eur v100 v0
    by (simp add: sample_invoice_def sample_item_def)
qed

subsection \<open>Formatting: digits, separators and the value rendered\<close>

declare digits.simps [simp del]

lemma digits_range: "set (digits n) \<subseteq> {48..57}"
proof (induction n rule: digits.induct)
  case (1 n)
  show ?case
  proof (cases "n < 10")
    case True
    then show ?thesis by (subst digits.simps) simp
  next
    case False
    have "n mod 10 < 10" by simp
    then have "48 + n mod 10 \<in> {48..57}" by auto
    with False 1 show ?thesis by (subst digits.simps) simp
  qed
qed

lemma digits_length: "1000 \<le> n \<Longrightarrow> 4 \<le> length (digits n)"
proof -
  assume n: "1000 \<le> n"
  have l1: "1 \<le> length (digits m)" for m
    by (subst digits.simps) simp
  have step: "10 \<le> m \<Longrightarrow> length (digits m) = length (digits (m div 10)) + 1" for m
    by (subst digits.simps) simp
  have "length (digits n) = length (digits (n div 10 div 10 div 10)) + 3"
    using n by (simp add: step)
  then show ?thesis
    using l1 [of "n div 10 div 10 div 10"] by simp
qed

lemma group3_set: "set (group3 ds) \<subseteq> insert 44 (set ds)"
  by (induction ds rule: group3.induct) auto

lemma group3_long: "4 \<le> length ds \<Longrightarrow> 44 \<in> set (group3 ds)"
  by (cases ds rule: group3.cases) auto

lemma with_commas_set: "set (with_commas ds) \<subseteq> insert 44 (set ds)"
  using group3_set [of "rev ds"] by (simp add: with_commas_def)

lemma with_commas_long: "4 \<le> length ds \<Longrightarrow> 44 \<in> set (with_commas ds)"
  using group3_long [of "rev ds"] by (simp add: with_commas_def)

lemma round_half_even_nonneg: "0 \<le> x \<Longrightarrow> 0 \<le> round_half_even x"
  using floor_le_round_half_even [of x] by (simp add: order_trans [of 0 "\<lfloor>x\<rfloor>"])

lemma round_ge_100000:
  assumes "1000 \<le> a"
  shows "100000 \<le> nat (round_half_even (\<bar>a\<bar> * 100))"
proof -
  have "(100000::rat) \<le> \<bar>a\<bar> * 100" using assms by simp
  then have "100000 \<le> \<lfloor>\<bar>a\<bar> * 100\<rfloor>" by (simp add: le_floor_iff)
  then have "100000 \<le> round_half_even (\<bar>a\<bar> * 100)"
    using floor_le_round_half_even [of "\<bar>a\<bar> * 100"] by linarith
  then show ?thesis by simp
qed

lemma format_fixed2_shape:
  "\<exists>ip d1 d2. format_fixed2 g a = ip @ [46, d1, d2]
     \<and> d1 \<in> {48..57} \<and> d2 \<in> {48..57} \<and> 46 \<notin> set ip"
proof -
  define n where "n = nat (round_half_even (\<bar>a\<bar> * 100))"
  define ip where "ip = (if a < 0 then [45] else [])
         @ (if g then with_commas (digits (n div 100)) else digits (n div 100))"
  have f: "format_fixed2 g a = ip @ [46, 48 + n mod 100 div 10, 48 + n mod 100 mod 10]"
    by (simp add: format_fixed2_def Let_def n_def ip_def)
  have "n mod 100 div 10 < 10" by simp
  then have d1: "48 + n mod 100 div 10 \<in> {48..57}" by auto
  have "n mod 100 mod 10 < 10" by simp
  then have d2: "48 + n mod 100 mod 10 \<in> {48..57}" by auto
  have "46 \<notin> set (digits (n div 100))"
    using digits_range [of "n div 100"] by auto
  moreover have "46 \<notin> set (with_commas (digits (n div 100)))"
  proof
    assume "46 \<in> set (with_commas (digits (n div 100)))"
    then have "46 \<in> insert 44 (set (digits (n div 100)))"
      using with_commas_set [of "digits (n div 100)"] by (rule rev_subsetD)
    then have "(46::nat) \<in> {48..57}"
      using digits_range [of "n div 100"] by auto
    then show False by simp
  qed
  ultimately have "46 \<notin> set ip"
    by (simp add: ip_def)
  with f d1 d2 show ?thesis by blast
qed

lemma format_fixed2_commas:
  "44 \<in> set (format_fixed2 (1000 \<le> a) a) \<longleftrightarrow> 1000 \<le> a"
proof (cases "1000 \<le> a")
  case True
  have "1000 \<le> nat (round_half_even (\<bar>a\<bar> * 100)) div 100"
    using round_ge_100000 [OF True] by simp
  then have "44 \<in> set (with_commas (digits (nat (round_half_even (\<bar>a\<bar> * 100)) div 100)))"
    by (intro with_commas_long digits_length)
  with True show ?thesis
    by (simp add: format_fixed2_def Let_def)
next
  case False
  have "n mod 100 div 10 < 10" for n :: nat by simp
  then have d1: "48 + n mod 100 div 10 \<noteq> 44" for n :: nat by simp
  have d2: "48 + n mod 100 mod 10 \<noteq> 44" for n :: nat by simp
  have "44 \<notin> set (digits n)" for n
    using digits_range [of n] by auto
  with False show ?thesis
    by (simp add: format_fixed2_def Let_def)
qed

lemma digits_value_snoc: "digits_value (ds @ [d]) = 10 * digits_value ds + (d - 48)"
  by (simp add: digits_value_def)

lemma digits_value_digits: "digits_value (digits n) = n"
proof (induction n rule: digits.induct)
  case (1 n)
  show ?case
  proof (cases "n < 10")
    case True
    then show ?thesis by (subst digits.simps) (simp add: digits_value_def)
  next
    case False
    with 1 show ?thesis by (subst digits.simps) (simp add: digits_value_snoc)
  qed
qed

lemma filter_group3: "\<not> P 44 \<Longrightarrow> filter P (group3 ds) = filter P ds"
  by (induction ds rule: group3.induct) auto

lemma filter_with_commas: "\<not> P 44 \<Longrightarrow> filter P (with_commas ds) = filter P ds"
  by (simp add: with_commas_def filter_group3 flip: rev_filter)

lemma filter_digits:
  "filter (\<lambda>c. c \<noteq> 44 \<and> c \<noteq> 45 \<and> c \<noteq> 46) (digits n) = digits n"
proof -
  have "\<forall>c\<in>set (digits n). c \<noteq> 44 \<and> c \<noteq> 45 \<and> c \<noteq> 46"
    using digits_range [of n] by auto
  then show ?thesis by (simp add: filter_id_conv)
qed

lemma digits_nonempty: "digits n \<noteq> []"
  by (subst digits.simps) simp

lemma hd_digits: "hd (digits n) \<noteq> 45"
proof -
  have "hd (digits n) \<in> set (digits n)"
    using digits_nonempty by (rule hd_in_set)
  then show ?thesis using digits_range [of n] by auto
qed

lemma group3_nonempty: "ds \<noteq> [] \<Longrightarrow> group3 ds \<noteq> []"
  by (cases ds rule: group3.cases) auto

lemma hd_with_commas: "hd (with_commas (digits n)) \<noteq> 45"
proof -
  have "with_commas (digits n) \<noteq> []"
    using group3_nonempty [of "rev (digits n)"] digits_nonempty [of n]
    by (simp add: with_commas_def)
  then have "hd (with_commas (digits n)) \<in> set (with_commas (digits n))"
    by (rule hd_in_set)
  then have "hd (with_commas (digits n)) \<in> insert 44 (set (digits n))"
    using with_commas_set [of "digits n"] by (rule rev_subsetD)
  then show ?thesis using digits_range [of n] by auto
qed

lemma hundredths_aux:
  "n = 100 * q + r \<Longrightarrow> r = 10 * d + m \<Longrightarrow> 10 * (10 * q + d) + m = (n::nat)"
  by simp

lemma hundredths: "10 * (10 * (n div 100) + n mod 100 div 10) + n mod 100 mod 10 = (n::nat)"
  by (rule hundredths_aux) simp_all

lemma decimal_value_format_fixed2: "decimal_value (format_fixed2 g a) = round_decimal a 2"
proof -
  define n where "n = nat (round_half_even (\<bar>a\<bar> * 100))"
  define ip where "ip = (if g then with_commas (digits (n div 100)) else digits (n div 100))"
  define d1 where "d1 = 48 + n mod 100 div 10"
  define d2 where "d2 = 48 + n mod 100 mod 10"
  let ?keep = "\<lambda>c::nat. c \<noteq> 44 \<and> c \<noteq> 45 \<and> c \<noteq> 46"
  have f: "format_fixed2 g a = (if a < 0 then [45] else []) @ ip @ [46, d1, d2]"
    by (simp add: format_fixed2_def Let_def n_def ip_def d1_def d2_def)
  have ip: "filter ?keep ip = digits (n div 100)"
    by (simp add: ip_def filter_with_commas filter_digits)
  have body: "filter ?keep (format_fixed2 g a) = digits (n div 100) @ [d1] @ [d2]"
    by (simp add: f ip) (simp add: d1_def d2_def)
  have "digits_value (filter ?keep (format_fixed2 g a)) =
          10 * (10 * (n div 100) + n mod 100 div 10) + n mod 100 mod 10"
    unfolding body
    by (simp only: digits_value_snoc digits_value_digits append_assoc [symmetric])
      (simp add: d1_def d2_def)
  also have "\<dots> = n"
    by (rule hundredths)
  finally have v: "digits_value (filter ?keep (format_fixed2 g a)) = n" .
  have hd_ip: "hd (ip @ [46, d1, d2]) \<noteq> 45"
  proof -
    have "ip \<noteq> []"
      using digits_nonempty [of "n div 100"] group3_nonempty [of "rev (digits (n div 100))"]
      by (simp add: ip_def with_commas_def)
    then have "hd (ip @ [46, d1, d2]) = hd ip" by simp
    then show ?thesis
      using hd_digits [of "n div 100"] hd_with_commas [of "n div 100"] by (simp add: ip_def)
  qed
  have nn: "of_nat n = (of_int (round_half_even (\<bar>a\<bar> * 100)) :: rat)"
    using round_half_even_nonneg [of "\<bar>a\<bar> * 100"] by (simp add: n_def)
  show ?thesis
  proof (cases "a < 0")
    case True
    then have "decimal_value (format_fixed2 g a) = - (of_nat n / 100)"
      unfolding decimal_value_def Let_def v by (simp add: f)
    also have "\<dots> = - (of_int (round_half_even (- (a * 100))) / 100)"
      using True by (simp add: nn)
    also have "\<dots> = of_int (round_half_even (a * 100)) / 100"
      by (simp add: round_half_even_minus)
    finally show ?thesis by (simp add: round_decimal_def)
  next
    case False
    then have "decimal_value (format_fixed2 g a) = of_nat n / 100"
      unfolding decimal_value_def Let_def v using hd_ip by (simp add: f)
    also have "\<dots> = of_int (round_half_even (a * 100)) / 100"
      using False by (simp add: nn)
    finally show ?thesis by (simp add: round_decimal_def)
  qed
qed

lemma format_example_1234: "format_currency (12345 / 10) (u ''USD'') True = u ''$1,234.50''"
proof -
  have r: "round_half_even 123450 = 123450"
    using round_half_even_int [of 123450] by simp
  have d: "digits 1234 = u ''1234''"
    by (simp add: digits.simps u_def)
  show ?thesis
    by (simp add: format_currency_def format_fixed2_def r d symbol_usd with_commas_def Let_def)
      (simp add: u_def)
qed

lemma format_example_42: "format_currency (425 / 10) (u ''USD'') True = u ''$42.50''"
proof -
  have r: "round_half_even 4250 = 4250"
    using round_half_even_int [of 4250] by simp
  have d: "digits 42 = u ''42''"
    by (simp add: digits.simps u_def)
  show ?thesis
    by (simp add: format_currency_def format_fixed2_def r d symbol_usd Let_def)
      (simp add: u_def)
qed

lemma symbols_XYZ: "map_of symbols (u ''XYZ'') = None"
  by (simp add: symbols_def py_dict_def dict_set_def u_def)

lemma symbols_USD: "map_of symbols (u ''USD'') = Some (u ''$'')"
  by (simp add: symbols_def py_dict_def dict_set_def u_def)

subsection \<open>Formatting: the claim\<close>

text \<open>
  C8. For every amount \<open>a\<close> and code \<open>c\<close>: with the symbol, \<open>format_currency\<close> is the
  display symbol of \<open>c\<close> (\<open>c\<close> itself when the symbol table has no entry) followed at once
  by the rendered amount; without it, the rendered amount, a space and the code. The
  rendered amount ends in a decimal point and exactly two digits, holds a thousands
  separator exactly when \<open>a \<ge> 1000\<close>, and read back as a decimal number it is \<open>a\<close> rounded
  exactly to 2 decimal places. 1234.5 in USD is \<open>$1,234.50\<close> and 42.5 in USD is \<open>$42.50\<close>.
\<close>

theorem format_currency_rendering:
  "format_currency a c True = get_currency_symbol c @ format_fixed2 (1000 \<le> a) a
   \<and> format_currency a c False = format_fixed2 (1000 \<le> a) a @ u '' '' @ c
   \<and> (map_of symbols c = None \<longrightarrow> get_currency_symbol c = c)
   \<and> (\<forall>s. map_of symbols c = Some s \<longrightarrow> get_currency_symbol c = s)
   \<and> (\<exists>ip d1 d2. format_fixed2 (1000 \<le> a) a = ip @ [46, d1, d2]
         \<and> d1 \<in> {48..57} \<and> d2 \<in> {48..57} \<and> 46 \<notin> set ip)
   \<and> (44 \<in> set (format_fixed2 (1000 \<le> a) a) \<longleftrightarrow> 1000 \<le> a)
   \<and> decimal_value (format_fixed2 (1000 \<le> a) a) = round_decimal a 2
   \<and> format_currency (12345 / 10) (u ''USD'') True = u ''$1,234.50''
   \<and> format_currency (425 / 10) (u ''USD'') True = u ''$42.50''"
proof -
  have a: "format_currency a c True = get_currency_symbol c @ format_fixed2 (1000 \<le> a) a"
    and b: "format_currency a c False = format_fixed2 (1000 \<le> a) a @ u '' '' @ c"
    by (simp_all add: format_currency_def u_def)
  have s: "(map_of symbols c = None \<longrightarrow> get_currency_symbol c = c)
      \<and> (\<forall>s. map_of symbols c = Some s \<longrightarrow> get_currency_symbol c = s)"
    by (simp add: get_currency_symbol_def)
  show ?thesis
    using a b s format_fixed2_shape [of "1000 \<le> a" a] format_fixed2_commas [of a]
      decimal_value_format_fixed2 [of "1000 \<le> a" a] format_example_1234 format_example_42
    by blast
qed

theorem format_currency_rendering_witness:
  "map_of symbols (u ''XYZ'') = None
   \<and> get_currency_symbol (u ''XYZ'') = u ''XYZ''
   \<and> map_of symbols (u ''USD'') = Some (u ''$'')
   \<and> get_currency_symbol (u ''USD'') = u ''$''
   \<and> format_currency (12345 / 10) (u ''USD'') True = u ''$1,234.50''
   \<and> format_currency (425 / 10) (u ''USD'') True = u ''$42.50''"
  using format_currency_rendering [of "12345 / 10" "u ''XYZ''"]
    format_currency_rendering [of "425 / 10" "u ''USD''"] symbols_XYZ symbols_USD
  by simp

subsection \<open>Aggregation: the empty batch\<close>

text \<open>
  C3. On the empty list \<open>get_multi_currency_summary\<close> raises nothing and returns
  \<open>total_in_usd = 0\<close>, an empty \<open>total_by_currency\<close> and an empty \<open>currency_breakdown\<close>.
  The returned dict has no key \<open>currencies_detected\<close> at all, where the claim expects an
  empty list under that key (the path for a list that is not empty does set the key).
\<close>

theorem get_multi_currency_summary_empty:
  "get_multi_currency_summary rates [] =
     Inr \<lparr>total_by_currency = [], total_in_usd = 0, currency_breakdown = [],
          currencies_detected = None\<rparr>"
  by (simp add: get_multi_currency_summary_def)

subsection \<open>Aggregation: the loops\<close>

lemma currencies_seen_snoc:
  "currencies_seen (xs @ [x]) =
     (if currency_of x \<in> set (currencies_seen xs) then currencies_seen xs
      else currencies_seen xs @ [currency_of x])"
  by (simp add: currencies_seen_def)

lemma set_currencies_seen: "set (currencies_seen xs) = currency_of ` set xs"
  by (simp add: currencies_seen_def)

lemma distinct_currencies_seen: "distinct (currencies_seen xs)"
  by (simp add: currencies_seen_def)

lemma invoices_in_snoc:
  "invoices_in c (xs @ [x]) = (if currency_of x = c then invoices_in c xs @ [x] else invoices_in c xs)"
  by (simp add: invoices_in_def)

lemma amount_in_snoc:
  "amount_in c (xs @ [x]) =
     (if currency_of x = c then fadd (amount_in c xs) (amount_of x) else amount_in c xs)"
  by (simp add: amount_in_def invoices_in_def float_sum_def)

lemma invoices_in_unseen: "c \<notin> set (currencies_seen xs) \<Longrightarrow> invoices_in c xs = []"
  by (auto simp add: set_currencies_seen invoices_in_def filter_empty_conv)

lemma amount_in_unseen: "c \<notin> set (currencies_seen xs) \<Longrightarrow> amount_in c xs = 0"
  by (simp add: amount_in_def invoices_in_unseen float_sum_def)

lemma invoices_in_seen: "c \<in> set (currencies_seen xs) \<Longrightarrow> 0 < length (invoices_in c xs)"
  by (auto simp add: set_currencies_seen invoices_in_def filter_empty_conv)

lemma keys_tabulate: "fst ` (\<lambda>c. (c, f c)) ` A = A"
  by (simp add: image_image)

lemma dict_set_new:
  "k \<notin> set cs \<Longrightarrow> dict_set (map (\<lambda>c. (c, f c)) cs) k v = map (\<lambda>c. (c, f c)) cs @ [(k, v)]"
  by (simp add: dict_set_def keys_tabulate)

lemma dict_update_tabulate:
  "dict_update (map (\<lambda>c. (c, f c)) cs) k g = map (\<lambda>c. (c, if c = k then g (f c) else f c)) cs"
  by (simp add: dict_update_def)

lemma dict_update_append:
  "dict_update (d @ e) k g = dict_update d k g @ dict_update e k g"
  by (simp add: dict_update_def)

lemma dict_update_single: "dict_update [(k, v)] k g = [(k, g v)]"
  by (simp add: dict_update_def)

lemma accumulate_invariant:
  "foldl accumulate ([], []) xs =
     (map (\<lambda>c. (c, amount_in c xs)) (currencies_seen xs),
      map (\<lambda>c. (c, \<lparr>count = length (invoices_in c xs), total = amount_in c xs, average = 0\<rparr>))
        (currencies_seen xs))"
proof (induction xs rule: rev_induct)
  case Nil
  show ?case by (simp add: currencies_seen_def)
next
  case (snoc x xs)
  let ?k = "currency_of x"
  show ?case
  proof (cases "?k \<in> set (currencies_seen xs)")
    case True
    have "accumulate
       (map (\<lambda>c. (c, amount_in c xs)) (currencies_seen xs),
        map (\<lambda>c. (c, \<lparr>count = length (invoices_in c xs), total = amount_in c xs, average = 0\<rparr>))
          (currencies_seen xs)) x =
       (map (\<lambda>c. (c, amount_in c (xs @ [x]))) (currencies_seen xs),
        map (\<lambda>c. (c, \<lparr>count = length (invoices_in c (xs @ [x])),
                      total = amount_in c (xs @ [x]), average = 0\<rparr>))
          (currencies_seen xs))"
      using True
      by (simp add: accumulate_def Let_def keys_tabulate dict_update_tabulate
          amount_in_snoc invoices_in_snoc currency_of_def [symmetric] amount_of_def [symmetric])
    then show ?thesis
      using True by (simp add: snoc.IH currencies_seen_snoc)
  next
    case False
    have "accumulate
       (map (\<lambda>c. (c, amount_in c xs)) (currencies_seen xs),
        map (\<lambda>c. (c, \<lparr>count = length (invoices_in c xs), total = amount_in c xs, average = 0\<rparr>))
          (currencies_seen xs)) x =
       (map (\<lambda>c. (c, amount_in c (xs @ [x]))) (currencies_seen xs @ [?k]),
        map (\<lambda>c. (c, \<lparr>count = length (invoices_in c (xs @ [x])),
                      total = amount_in c (xs @ [x]), average = 0\<rparr>))
          (currencies_seen xs @ [?k]))"
      using False
      by (simp add: accumulate_def Let_def keys_tabulate dict_set_new dict_update_append
          dict_update_single dict_update_tabulate amount_in_snoc invoices_in_snoc
          amount_in_unseen invoices_in_unseen
          currency_of_def [symmetric] amount_of_def [symmetric])
    then show ?thesis
      using False by (simp add: snoc.IH currencies_seen_snoc)
  qed
qed

lemma sum_in_usd_running:
  "sum_in_usd EXCHANGE_RATES ts running =
     Inr (foldl fadd running (map (\<lambda>(c, t). baseline_usd_value t c) ts))"
  by (induction ts arbitrary: running) (auto simp add: convert_to_usd_baseline)

lemma sum_in_usd_baseline:
  "sum_in_usd EXCHANGE_RATES ts 0 = Inr (float_sum (map (\<lambda>(c, t). baseline_usd_value t c) ts))"
  by (simp add: sum_in_usd_running float_sum_def)

lemma summary_baseline:
  assumes "invoices \<noteq> []"
  shows "get_multi_currency_summary EXCHANGE_RATES invoices =
     Inr \<lparr>total_by_currency =
            map (\<lambda>c. (c, py_round (amount_in c invoices) 2)) (currencies_seen invoices),
          total_in_usd =
            py_round (float_sum (map (\<lambda>c. baseline_usd_value (amount_in c invoices) c)
              (currencies_seen invoices))) 2,
          currency_breakdown =
            map (\<lambda>c. (c, \<lparr>count = length (invoices_in c invoices),
                          total = amount_in c invoices,
                          average = py_round (fdiv (amount_in c invoices)
                                      (of_nat (length (invoices_in c invoices)))) 2\<rparr>))
              (currencies_seen invoices),
          currencies_detected = Some (currencies_seen invoices)\<rparr>"
proof -
  have avg: "map (\<lambda>(c, s). (c, set_average s))
        (map (\<lambda>c. (c, \<lparr>count = length (invoices_in c invoices),
                      total = amount_in c invoices, average = 0\<rparr>))
          (currencies_seen invoices)) =
      map (\<lambda>c. (c, \<lparr>count = length (invoices_in c invoices),
                    total = amount_in c invoices,
                    average = py_round (fdiv (amount_in c invoices)
                                (of_nat (length (invoices_in c invoices)))) 2\<rparr>))
        (currencies_seen invoices)"
    using invoices_in_seen [of _ invoices]
    by (simp add: set_average_def)
  have usd: "map (\<lambda>(c, t). baseline_usd_value t c)
        (map (\<lambda>c. (c, amount_in c invoices)) (currencies_seen invoices)) =
      map (\<lambda>c. baseline_usd_value (amount_in c invoices) c) (currencies_seen invoices)"
    by simp
  have tot: "map (\<lambda>(c, t). (c, py_round t 2))
        (map (\<lambda>c. (c, amount_in c invoices)) (currencies_seen invoices)) =
      map (\<lambda>c. (c, py_round (amount_in c invoices) 2)) (currencies_seen invoices)"
    by simp
  have keys: "map fst (map (\<lambda>c. (c, amount_in c invoices)) (currencies_seen invoices)) =
      currencies_seen invoices"
    by (simp add: comp_def)
  show ?thesis
    using assms
    by (simp only: get_multi_currency_summary_def accumulate_invariant Let_def prod.case
        sum_in_usd_baseline usd tot avg keys if_False sum.case)
qed

lemma conversions_baseline:
  "list_all2 (\<lambda>c v. convert_currency EXCHANGE_RATES (f c) c (u ''USD'') = Inr v)
     cs (map (\<lambda>c. baseline_usd_value (f c) c) cs)"
  by (induction cs) (simp_all add: convert_to_usd_baseline)

lemma usd_value_usd: "baseline_usd_value a (u ''USD'') = a"
  by (simp add: baseline_usd_value_def EXCHANGE_RATES_USD)

lemmas batch_eval =
  currencies_seen_def amount_in_def invoices_in_def currency_of_def amount_of_def
  sample_invoice_def get_default_def u_def float_sum_def fadd_def double_of_0 double_of_idem

subsection \<open>Aggregation: a batch of 0.1 USD and 0.2 USD\<close>

lemma dimes_seen:
  "currencies_seen
     [sample_invoice None (Some (double_of (1 / 10))) None (Some (u ''USD'')),
      sample_invoice None (Some (double_of (1 / 5))) None (Some (u ''USD''))] = [u ''USD'']"
  by (simp add: batch_eval)

lemma dimes_usd:
  "amount_in (u ''USD'')
     [sample_invoice None (Some (double_of (1 / 10))) None (Some (u ''USD'')),
      sample_invoice None (Some (double_of (1 / 5))) None (Some (u ''USD''))] =
   double_of (double_of (1 / 10) + double_of (1 / 5))"
  "length (invoices_in (u ''USD'')
     [sample_invoice None (Some (double_of (1 / 10))) None (Some (u ''USD'')),
      sample_invoice None (Some (double_of (1 / 5))) None (Some (u ''USD''))]) = 2"
  by (simp_all add: batch_eval)

lemma dimes_rounding:
  "py_round (double_of (double_of (1 / 10) + double_of (1 / 5))) 2 = double_of (3 / 10)"
  "py_round (fdiv (double_of (double_of (1 / 10) + double_of (1 / 5))) 2) 2 = double_of (3 / 20)"
  "float_sum [double_of (double_of (1 / 10) + double_of (1 / 5))] =
     double_of (double_of (1 / 10) + double_of (1 / 5))"
proof -
  have ds: "double_of (1351079888211149 / 4503599627370496) = 1351079888211149 / 4503599627370496"
    using double_of_idem [of "double_of (1 / 10) + double_of (1 / 5)"]
    unfolding dbl_s_01_02 .
  show "py_round (double_of (double_of (1 / 10) + double_of (1 / 5))) 2 = double_of (3 / 10)"
    unfolding dbl_s_01_02 using py_round_near [of "1351079888211149 / 4503599627370496" 30]
    by (simp add: ds)
  have h: "fdiv (double_of (double_of (1 / 10) + double_of (1 / 5))) 2 =
      1351079888211149 / 9007199254740992"
    by (simp add: fdiv_def double_of_idem dbl_2 dbl_h_01_02)
  have dh: "double_of (1351079888211149 / 9007199254740992) = 1351079888211149 / 9007199254740992"
    using double_of_fdiv [of "double_of (double_of (1 / 10) + double_of (1 / 5))" 2]
    unfolding h .
  show "py_round (fdiv (double_of (double_of (1 / 10) + double_of (1 / 5))) 2) 2 =
      double_of (3 / 20)"
    unfolding h using py_round_near [of "1351079888211149 / 9007199254740992" 15]
    by (simp add: dh)
  show "float_sum [double_of (double_of (1 / 10) + double_of (1 / 5))] =
      double_of (double_of (1 / 10) + double_of (1 / 5))"
    by (simp add: float_sum_def fadd_def double_of_0 double_of_idem)
qed

subsection \<open>Aggregation: a batch of 0.01 USD, 0.02 without a currency and 100 EUR\<close>

lemma cents_seen:
  "currencies_seen
     [sample_invoice None (Some (double_of (1 / 100))) None (Some (u ''USD'')),
      sample_invoice None (Some (double_of (1 / 50))) None None,
      sample_invoice None (Some 100) None (Some (u ''EUR''))] = [u ''USD'', u ''EUR'']"
  by (simp add: batch_eval)

lemma cents_usd:
  "amount_in (u ''USD'')
     [sample_invoice None (Some (double_of (1 / 100))) None (Some (u ''USD'')),
      sample_invoice None (Some (double_of (1 / 50))) None None,
      sample_invoice None (Some 100) None (Some (u ''EUR''))] =
   double_of (double_of (1 / 100) + double_of (1 / 50))"
  "length (invoices_in (u ''USD'')
     [sample_invoice None (Some (double_of (1 / 100))) None (Some (u ''USD'')),
      sample_invoice None (Some (double_of (1 / 50))) None (None :: ustring option),
      sample_invoice None (Some 100) None (Some (u ''EUR''))]) = 2"
  by (simp_all add: batch_eval)

lemma cents_eur:
  "amount_in (u ''EUR'')
     [sample_invoice None (Some (double_of (1 / 100))) None (Some (u ''USD'')),
      sample_invoice None (Some (double_of (1 / 50))) None None,
      sample_invoice None (Some 100) None (Some (u ''EUR''))] = 100"
  "length (invoices_in (u ''EUR'')
     [sample_invoice None (Some (double_of (1 / 100))) None (Some (u ''USD'')),
      sample_invoice None (Some (double_of (1 / 50))) None (None :: ustring option),
      sample_invoice None (Some 100) None (Some (u ''EUR''))]) = 1"
  by (simp_all add: batch_eval dbl_100)

lemma cents_sum: "double_of (double_of (1 / 100) + double_of (1 / 50)) = double_of (3 / 100)"
  by (simp add: dbl_s_001_002 dbl_3_100)

lemma cents_rounding:
  "py_round (double_of (double_of (1 / 100) + double_of (1 / 50))) 2 = double_of (3 / 100)"
  "py_round (fdiv (double_of (double_of (1 / 100) + double_of (1 / 50))) 2) 2 = double_of (1 / 100)"
  "py_round 100 2 = 100"
  "py_round (fdiv 100 1) 2 = 100"
  "py_round (float_sum [double_of (double_of (1 / 100) + double_of (1 / 50)),
      double_of (1087 / 10)]) 2 = double_of (10873 / 100)"
proof -
  have ds: "double_of (1080863910568919 / 36028797018963968) =
      1080863910568919 / 36028797018963968"
    using double_of_idem [of "double_of (1 / 100) + double_of (1 / 50)"]
    unfolding dbl_s_001_002 .
  show "py_round (double_of (double_of (1 / 100) + double_of (1 / 50))) 2 = double_of (3 / 100)"
    unfolding dbl_s_001_002 using py_round_near [of "1080863910568919 / 36028797018963968" 3]
    by (simp add: ds)
  have h: "fdiv (double_of (double_of (1 / 100) + double_of (1 / 50))) 2 =
      1080863910568919 / 72057594037927936"
    by (simp add: fdiv_def double_of_idem dbl_2 dbl_h_001_002)
  have dh: "double_of (1080863910568919 / 72057594037927936) =
      1080863910568919 / 72057594037927936"
    using double_of_fdiv [of "double_of (double_of (1 / 100) + double_of (1 / 50))" 2]
    unfolding h .
  show "py_round (fdiv (double_of (double_of (1 / 100) + double_of (1 / 50))) 2) 2 =
      double_of (1 / 100)"
    unfolding h using py_round_near [of "1080863910568919 / 72057594037927936" 1]
    by (simp add: dh)
  show r100: "py_round 100 2 = 100"
    using py_round_near [of 100 10000] by (simp add: dbl_100)
  show "py_round (fdiv 100 1) 2 = 100"
    by (simp add: fdiv_1_right dbl_100 r100)
  have g0: "fadd (fadd 0 (double_of (double_of (1 / 100) + double_of (1 / 50))))
      (double_of (1087 / 10)) = 7651193554437407 / 70368744177664"
    by (simp add: fadd_def double_of_0 double_of_idem dbl_g_003_1087)
  have g: "float_sum [double_of (double_of (1 / 100) + double_of (1 / 50)),
      double_of (1087 / 10)] = 7651193554437407 / 70368744177664"
    by (simp add: float_sum_def g0)
  have dg: "double_of (7651193554437407 / 70368744177664) = 7651193554437407 / 70368744177664"
    using double_of_fadd [of "fadd 0 (double_of (double_of (1 / 100) + double_of (1 / 50)))"
        "double_of (1087 / 10)"]
    unfolding g0 .
  show "py_round (float_sum [double_of (double_of (1 / 100) + double_of (1 / 50)),
      double_of (1087 / 10)]) 2 = double_of (10873 / 100)"
    unfolding g using py_round_near [of "7651193554437407 / 70368744177664" 10873]
    by (simp add: dg)
qed

lemma cents_conversions:
  "convert_currency EXCHANGE_RATES (double_of (double_of (1 / 100) + double_of (1 / 50)))
     (u ''USD'') (u ''USD'') = Inr (double_of (double_of (1 / 100) + double_of (1 / 50)))"
  "convert_currency EXCHANGE_RATES 100 (u ''EUR'') (u ''USD'') = Inr (double_of (1087 / 10))"
  by (simp_all add: convert_to_usd_baseline usd_value_100_eur usd_value_usd)

subsection \<open>Aggregation: the claim\<close>

text \<open>
  C2 as stated does not hold: not every per-currency total is rounded to 2 decimals
  before it is returned. For a batch of two USD invoices of 0.1 and 0.2 the breakdown
  holds the float sum 0.30000000000000004 as its total, which is not its own rounding to
  2 decimals (0.3, the value that \<open>total_by_currency\<close> holds).
\<close>

theorem get_multi_currency_summary_unrounded_counterexample:
  "get_multi_currency_summary EXCHANGE_RATES
     [sample_invoice None (Some (double_of (1 / 10))) None (Some (u ''USD'')),
      sample_invoice None (Some (double_of (1 / 5))) None (Some (u ''USD''))] =
   Inr \<lparr>total_by_currency = [(u ''USD'', double_of (3 / 10))],
        total_in_usd = double_of (3 / 10),
        currency_breakdown =
          [(u ''USD'', \<lparr>count = 2, total = 1351079888211149 / 4503599627370496,
                        average = double_of (3 / 20)\<rparr>)],
        currencies_detected = Some [u ''USD'']\<rparr>
   \<and> py_round (1351079888211149 / 4503599627370496) 2 = double_of (3 / 10)
   \<and> double_of (3 / 10) = 5404319552844595 / 18014398509481984
   \<and> (1351079888211149 / 4503599627370496 :: rat) \<noteq> 5404319552844595 / 18014398509481984"
proof -
  have ne: "[sample_invoice None (Some (double_of (1 / 10))) None (Some (u ''USD'')),
      sample_invoice None (Some (double_of (1 / 5))) None (Some (u ''USD''))] \<noteq> []"
    by simp
  have s: "double_of (double_of (1 / 10) + double_of (1 / 5)) =
      1351079888211149 / 4503599627370496"
    by (rule dbl_s_01_02)
  have a: "get_multi_currency_summary EXCHANGE_RATES
     [sample_invoice None (Some (double_of (1 / 10))) None (Some (u ''USD'')),
      sample_invoice None (Some (double_of (1 / 5))) None (Some (u ''USD''))] =
   Inr \<lparr>total_by_currency = [(u ''USD'', double_of (3 / 10))],
        total_in_usd = double_of (3 / 10),
        currency_breakdown =
          [(u ''USD'', \<lparr>count = 2, total = double_of (double_of (1 / 10) + double_of (1 / 5)),
                        average = double_of (3 / 20)\<rparr>)],
        currencies_detected = Some [u ''USD'']\<rparr>"
    unfolding summary_baseline [OF ne] dimes_seen
    by (simp add: dimes_usd dimes_rounding usd_value_usd)
  have b: "py_round (1351079888211149 / 4503599627370496) 2 = double_of (3 / 10)"
    using dimes_rounding(1) unfolding s .
  show ?thesis
    using a b unfolding s by (simp add: dbl_3_10)
qed

text \<open>
  C2, amended. For every list of invoices that is not empty, \<open>get_multi_currency_summary\<close>
  (under the baseline rate table) returns a summary. The invoices are grouped by their
  \<open>currency\<close> (USD when absent), with \<open>total_amount\<close> read as 0 when absent; the currencies
  appear once each, in the order of first appearance. For every currency present the
  breakdown holds the number of its invoices, as total the float sum of their amounts
  in list order, not rounded, and the average \<open>round(total / count, 2)\<close>;
  \<open>total_by_currency\<close> holds that sum rounded to 2 decimals; and \<open>total_in_usd\<close> is the
  rounded float sum of one conversion to USD for each currency, applied to that
  currency's summed total and added in order of first appearance.
\<close>

theorem get_multi_currency_summary_groups:
  assumes "invoices \<noteq> []"
  shows "\<exists>s usd.
      get_multi_currency_summary EXCHANGE_RATES invoices = Inr s
      \<and> distinct (currencies_seen invoices)
      \<and> set (currencies_seen invoices) = currency_of ` set invoices
      \<and> currencies_detected s = Some (currencies_seen invoices)
      \<and> total_by_currency s =
           map (\<lambda>c. (c, py_round (amount_in c invoices) 2)) (currencies_seen invoices)
      \<and> currency_breakdown s =
           map (\<lambda>c. (c, \<lparr>count = length (invoices_in c invoices),
                         total = amount_in c invoices,
                         average = py_round (fdiv (amount_in c invoices)
                                     (of_nat (length (invoices_in c invoices)))) 2\<rparr>))
             (currencies_seen invoices)
      \<and> list_all2
           (\<lambda>c v. convert_currency EXCHANGE_RATES (amount_in c invoices) c (u ''USD'') = Inr v)
           (currencies_seen invoices) usd
      \<and> total_in_usd s = py_round (float_sum usd) 2"
proof -
  let ?s = "\<lparr>total_by_currency =
            map (\<lambda>c. (c, py_round (amount_in c invoices) 2)) (currencies_seen invoices),
          total_in_usd =
            py_round (float_sum (map (\<lambda>c. baseline_usd_value (amount_in c invoices) c)
              (currencies_seen invoices))) 2,
          currency_breakdown =
            map (\<lambda>c. (c, \<lparr>count = length (invoices_in c invoices),
                          total = amount_in c invoices,
                          average = py_round (fdiv (amount_in c invoices)
                                      (of_nat (length (invoices_in c invoices)))) 2\<rparr>))
              (currencies_seen invoices),
          currencies_detected = Some (currencies_seen invoices)\<rparr>"
  let ?usd = "map (\<lambda>c. baseline_usd_value (amount_in c invoices) c) (currencies_seen invoices)"
  show ?thesis
    using summary_baseline [OF assms] distinct_currencies_seen [of invoices]
      set_currencies_seen [of invoices]
      conversions_baseline [of "\<lambda>c. amount_in c invoices" "currencies_seen invoices"]
    by (intro exI [of _ ?s] exI [of _ ?usd]) simp
qed

theorem get_multi_currency_summary_groups_witness:
  "[sample_invoice None (Some (double_of (1 / 100))) None (Some (u ''USD'')),
    sample_invoice None (Some (double_of (1 / 50))) None None,
    sample_invoice None (Some 100) None (Some (u ''EUR''))] \<noteq> []
   \<and> get_multi_currency_summary EXCHANGE_RATES
       [sample_invoice None (Some (double_of (1 / 100))) None (Some (u ''USD'')),
        sample_invoice None (Some (double_of (1 / 50))) None None,
        sample_invoice None (Some 100) None (Some (u ''EUR''))] =
     Inr \<lparr>total_by_currency = [(u ''USD'', double_of (3 / 100)), (u ''EUR'', 100)],
          total_in_usd = double_of (10873 / 100),
          currency_breakdown =
            [(u ''USD'', \<lparr>count = 2, total = double_of (3 / 100),
                          average = double_of (1 / 100)\<rparr>),
             (u ''EUR'', \<lparr>count = 1, total = 100, average = 100\<rparr>)],
          currencies_detected = Some [u ''USD'', u ''EUR'']\<rparr>"
proof -
  let ?batch = "[sample_invoice None (Some (double_of (1 / 100))) None (Some (u ''USD'')),
    sample_invoice None (Some (double_of (1 / 50))) None None,
    sample_invoice None (Some 100) None (Some (u ''EUR''))]"
  have ne: "?batch \<noteq> []" by simp
  obtain s usd where
    r: "get_multi_currency_summary EXCHANGE_RATES ?batch = Inr s"
    and cd: "currencies_detected s = Some (currencies_seen ?batch)"
    and tb: "total_by_currency s =
           map (\<lambda>c. (c, py_round (amount_in c ?batch) 2)) (currencies_seen ?batch)"
    and cb: "currency_breakdown s =
           map (\<lambda>c. (c, \<lparr>count = length (invoices_in c ?batch),
                         total = amount_in c ?batch,
                         average = py_round (fdiv (amount_in c ?batch)
                                     (of_nat (length (invoices_in c ?batch)))) 2\<rparr>))
             (currencies_seen ?batch)"
    and cv: "list_all2
           (\<lambda>c v. convert_currency EXCHANGE_RATES (amount_in c ?batch) c (u ''USD'') = Inr v)
           (currencies_seen ?batch) usd"
    and tu: "total_in_usd s = py_round (float_sum usd) 2"
    using get_multi_currency_summary_groups [OF ne] by blast
  have usd: "usd = [double_of (double_of (1 / 100) + double_of (1 / 50)), double_of (1087 / 10)]"
    using cv unfolding cents_seen
    by (auto simp add: list_all2_Cons1 cents_usd cents_eur cents_conversions)
  have "s = \<lparr>total_by_currency = [(u ''USD'', double_of (3 / 100)), (u ''EUR'', 100)],
          total_in_usd = double_of (10873 / 100),
          currency_breakdown =
            [(u ''USD'', \<lparr>count = 2,
                          total = double_of (double_of (1 / 100) + double_of (1 / 50)),
                          average = double_of (1 / 100)\<rparr>),
             (u ''EUR'', \<lparr>count = 1, total = 100, average = 100\<rparr>)],
          currencies_detected = Some [u ''USD'', u ''EUR'']\<rparr>"
    using cd tb cb tu unfolding cents_seen usd
    by (intro summary.equality) (simp_all add: cents_usd cents_eur cents_rounding)
  with r ne show ?thesis unfolding cents_sum by simp
qed

end
